theory Spec2Isabelle
  imports Main "HOL-Library.Sublist" "HOL-Library.AList"
begin

section \<open>Request orchestration of the creative-audit tool\<close>

text \<open>
  Two programs of the repository call the model provider:
  \<^item> \<^verbatim>\<open>analyzeCreative\<close> in \<^verbatim>\<open>services/geminiService.ts\<close> (the browser service), a
    \<^verbatim>\<open>while\<close> loop of at most \<^verbatim>\<open>maxRetries = 4\<close> attempts;
  \<^item> \<^verbatim>\<open>POST\<close> of the API route, with its local helpers \<^verbatim>\<open>buildParts\<close> and
    \<^verbatim>\<open>attemptGeneration\<close> (a recursion on \<^verbatim>\<open>retryCount\<close>) and the input schema
    \<^verbatim>\<open>AnalyzeSchema\<close>.

  Both are embedded below. Strings are byte lists holding the UTF-8 encoding of the
  source's strings, so the accented letters of the messages are written as their two
  bytes; \<^verbatim>\<open>String.prototype.includes\<close> is the contiguous-sublist test, which UTF-8
  encoding preserves. Console output is not modelled.
\<close>

subsection \<open>JavaScript values\<close>

text \<open>
  The values \<^verbatim>\<open>JSON.parse\<close> produces. An object is the list of its own properties
  in enumeration order, with distinct keys; a property is read with \<open>json_get\<close>. The
  programs never inspect a number, so integers stand for the numbers.
\<close>

datatype json =
    JNull
  | JBool bool
  | JNum int
  | JStr string
  | JArr "json list"
  | JObj "(string \<times> json) list"

fun json_get :: "json \<Rightarrow> string \<Rightarrow> json option" where
  "json_get (JObj kvs) k = map_of kvs k"
| "json_get _ k = None"

text \<open>
  A thrown value, as far as the handlers inspect it: \<^verbatim>\<open>error.status\<close>,
  \<^verbatim>\<open>error.message\<close> and \<^verbatim>\<open>error.details\<close>, each possibly \<^verbatim>\<open>undefined\<close>. An element
  of \<^verbatim>\<open>details\<close> is read at \<^verbatim>\<open>d['@type']\<close> and \<^verbatim>\<open>d.retryDelay\<close>.
\<close>

record detail =
  at_type :: "string option"
  retryDelay :: "string option"

record js_error =
  status :: "nat option"
  message :: "string option"
  details :: "detail list option"

text \<open>\<^verbatim>\<open>new Error(msg)\<close>: a message, no status, no details.\<close>

definition js_Error :: "string \<Rightarrow> js_error" where
  "js_Error msg = \<lparr>status = None, message = Some msg, details = None\<rparr>"

text \<open>Truthiness of an optional string: \<^verbatim>\<open>undefined\<close> and \<^verbatim>\<open>''\<close> are falsy.\<close>

fun truthy :: "string option \<Rightarrow> bool" where
  "truthy None = False"
| "truthy (Some s) = (s \<noteq> [])"

definition js_includes :: "string \<Rightarrow> string \<Rightarrow> bool" where
  "js_includes s sub = sublist sub s"

text \<open>
  \<^verbatim>\<open>msg?.includes(sub)\<close> in a condition: \<^verbatim>\<open>undefined\<close> (falsy) when the message is
  absent.
\<close>

fun opt_includes :: "string option \<Rightarrow> string \<Rightarrow> bool" where
  "opt_includes None sub = False"
| "opt_includes (Some s) sub = js_includes s sub"

text \<open>Decimal rendering of a number in a template literal.\<close>

function show_nat :: "nat \<Rightarrow> string" where
  "show_nat n =
     (if n < 10 then [char_of (48 + n)]
      else show_nat (n div 10) @ [char_of (48 + n mod 10)])"
  by pat_completeness auto
termination
  by (relation "measure id") auto

declare show_nat.simps [simp del]

text \<open>A template literal renders an absent message as \<^verbatim>\<open>undefined\<close>.\<close>

fun template_string :: "string option \<Rightarrow> string" where
  "template_string None = ''undefined''"
| "template_string (Some s) = s"

subsection \<open>Content parts, the provider and the trace of effects\<close>

datatype part =
    TextPart string
  | InlineData string string

text \<open>
  The effects of one orchestrated call, in order: each call of \<^verbatim>\<open>generateContent\<close>
  with the parts it sends, and each timed wait with the milliseconds handed to
  \<^verbatim>\<open>setTimeout\<close>.
\<close>

datatype event =
    Invoke "part list"
  | Sleep nat

fun is_Invoke :: "event \<Rightarrow> bool" where
  "is_Invoke (Invoke ps) = True"
| "is_Invoke (Sleep d) = False"

definition invocations :: "event list \<Rightarrow> nat" where
  "invocations tr = length (filter is_Invoke tr)"

fun sleeps :: "event list \<Rightarrow> nat list" where
  "sleeps [] = []"
| "sleeps (Invoke ps # tr) = sleeps tr"
| "sleeps (Sleep d # tr) = d # sleeps tr"

text \<open>
  The provider is outside the repository. It is a parameter: given the number of
  invocations made before in this call and the parts sent, it throws an error or
  yields the response text. In the browser service the text is \<^verbatim>\<open>response.text\<close>,
  which may be \<^verbatim>\<open>undefined\<close>; in the route it is the string \<^verbatim>\<open>response.text()\<close>
  returns (an exception of that call is a thrown error of the same \<^verbatim>\<open>try\<close> block).
  \<^verbatim>\<open>JSON.parse\<close> is a parameter too: it returns the parsed value or the message of
  the \<^verbatim>\<open>SyntaxError\<close> it throws.
\<close>

type_synonym 'r provider = "nat \<Rightarrow> part list \<Rightarrow> js_error + 'r"

type_synonym json_parser = "string \<Rightarrow> string + json"

text \<open>\<^verbatim>\<open>image.split(',')[1] || image\<close>: the text between the first and the second comma
  when it is not empty, the whole string otherwise.\<close>

definition strip_data_url :: "string \<Rightarrow> string" where
  "strip_data_url img =
     (let rest = dropWhile (\<lambda>c. c \<noteq> CHR '','') img in
      case rest of
        [] \<Rightarrow> img
      | _ # after \<Rightarrow>
          (let second = takeWhile (\<lambda>c. c \<noteq> CHR '','') after
           in if second \<noteq> [] then second else img))"

subsection \<open>Retry-delay guidance\<close>

text \<open>
  \<^verbatim>\<open>error.details.find(d => d['@type']?.includes('RetryInfo') && d.retryDelay)\<close>,
  guarded by \<^verbatim>\<open>error.details && Array.isArray(error.details)\<close>.
\<close>

definition is_retryInfo :: "detail \<Rightarrow> bool" where
  "is_retryInfo d = (opt_includes (at_type d) ''RetryInfo'' \<and> truthy (retryDelay d))"

definition find_retryInfo :: "js_error \<Rightarrow> detail option" where
  "find_retryInfo error =
     (case details error of None \<Rightarrow> None | Some ds \<Rightarrow> find is_retryInfo ds)"

definition is_digit :: "char \<Rightarrow> bool" where
  "is_digit c = (c \<in> set ''0123456789'')"

text \<open>
  \<^verbatim>\<open>parseInt\<close> of a string of decimal digits. A JavaScript number is a double, so
  the value is exact below \<open>2 ^ 53\<close>; the model is the exact value and the theorems
  about delays are stated under that bound.
\<close>

definition parseInt :: "string \<Rightarrow> nat" where
  "parseInt ds = foldl (\<lambda>acc c. acc * 10 + (of_char c - 48)) 0 ds"

text \<open>
  \<^verbatim>\<open>retryDelay.match(/^(\d+)(s|ms)$/)\<close>: the two groups when the whole string is one
  or more digits followed by \<^verbatim>\<open>s\<close> or \<^verbatim>\<open>ms\<close>.
\<close>

definition match_retryDelay :: "string \<Rightarrow> (string \<times> string) option" where
  "match_retryDelay s =
     (let ds = takeWhile is_digit s; unit = dropWhile is_digit s
      in if ds \<noteq> [] \<and> (unit = ''s'' \<or> unit = ''ms'') then Some (ds, unit) else None)"

text \<open>
  The delay the provider asks for, when the error has a retry-info detail whose
  delay matches: \<^verbatim>\<open>unit === 's' ? value * 1000 : value\<close>.
\<close>

definition requested_delay :: "js_error \<Rightarrow> nat option" where
  "requested_delay error =
     (case find_retryInfo error of
        None \<Rightarrow> None
      | Some retryInfo \<Rightarrow>
          (case retryDelay retryInfo of
             None \<Rightarrow> None
           | Some rd \<Rightarrow>
               (case match_retryDelay rd of
                  None \<Rightarrow> None
                | Some (digits, unit) \<Rightarrow>
                    Some (if unit = ''s'' then parseInt digits * 1000 else parseInt digits))))"

subsection \<open>The browser service: \<^verbatim>\<open>analyzeCreative\<close>\<close>

definition maxRetries :: nat where
  "maxRetries = 4"

definition backoffDelays :: "nat list" where
  "backoffDelays = [2000, 5000, 15000, 35000]"

definition msg_api_key :: string where
  "msg_api_key = ''API Key configuration error''"

definition msg_json_parse :: string where
  "msg_json_parse =
     ''Resposta inv'' @ [CHR 0xC3, CHR 0xA1] @ ''lida do motor de IA (JSON Parse Error).''"

definition msg_overloaded :: string where
  "msg_overloaded =
     ''Servi'' @ [CHR 0xC3, CHR 0xA7] @
     ''o temporariamente sobrecarregado. Por favor, aguarde 1 minuto e tente novamente.''"

definition msg_unknown :: string where
  "msg_unknown = ''Erro desconhecido na an'' @ [CHR 0xC3, CHR 0xA1] @ ''lise.''"

text \<open>
  The message of the final error:
  \<^verbatim>\<open>error.status === 429 ? '...sobrecarregado...' : `Falha na analise apos ${attempt + 1} tentativas. ${error.message}`\<close>.
\<close>

definition userMessage :: "js_error \<Rightarrow> nat \<Rightarrow> string" where
  "userMessage error attempt =
     (if status error = Some 429 then msg_overloaded
      else ''Falha na an'' @ [CHR 0xC3, CHR 0xA1] @ ''lise ap'' @ [CHR 0xC3, CHR 0xB3] @ ''s '' @
           show_nat (attempt + 1) @ '' tentativas. '' @ template_string (message error))"

definition isRetryable_spa :: "js_error \<Rightarrow> bool" where
  "isRetryable_spa error =
     (status error = Some 429 \<or>
      status error = Some 503 \<or>
      (truthy (message error) \<and>
       (opt_includes (message error) ''Resource has been exhausted'' \<or>
        opt_includes (message error) ''Quota exceeded'')))"

text \<open>
  The delay before the next attempt: the requested delay, and when that left
  \<^verbatim>\<open>delay\<close> at 0, \<^verbatim>\<open>backoffDelays[attempt] || 35000\<close>.
\<close>

definition retry_delay_spa :: "js_error \<Rightarrow> nat \<Rightarrow> nat" where
  "retry_delay_spa error attempt =
     (let delay = (case requested_delay error of None \<Rightarrow> 0 | Some d \<Rightarrow> d)
      in if delay = 0
         then (if attempt < length backoffDelays \<and> backoffDelays ! attempt \<noteq> 0
               then backoffDelays ! attempt else 35000)
         else delay)"

text \<open>
  The body of the \<^verbatim>\<open>try\<close> block: the call, then
  \<^verbatim>\<open>response.text || '{}'\<close> parsed, a parse failure rethrown as a new \<^verbatim>\<open>Error\<close>.
\<close>

definition spa_try ::
  "string option provider \<Rightarrow> json_parser \<Rightarrow> part list \<Rightarrow> nat \<Rightarrow> js_error + json" where
  "spa_try prov jp contents attempt =
     (case prov attempt contents of
        Inl error \<Rightarrow> Inl error
      | Inr text \<Rightarrow>
          (let textResult = (case text of None \<Rightarrow> ''{}'' | Some t \<Rightarrow> if t \<noteq> [] then t else ''{}'')
           in case jp textResult of
                Inr parsed \<Rightarrow> Inr parsed
              | Inl e \<Rightarrow> Inl (js_Error msg_json_parse)))"

text \<open>
  The \<^verbatim>\<open>while (attempt < maxRetries)\<close> loop. One invocation is made per attempt, so
  the provider is asked at index \<open>attempt\<close>.
\<close>

function analyze_loop ::
  "string option provider \<Rightarrow> json_parser \<Rightarrow> part list \<Rightarrow> nat \<Rightarrow> event list \<times> (js_error + json)"
where
  "analyze_loop prov jp contents attempt =
     (if attempt < maxRetries then
        (case spa_try prov jp contents attempt of
           Inr parsed \<Rightarrow> ([Invoke contents], Inr parsed)
         | Inl error \<Rightarrow>
             (if isRetryable_spa error \<and> attempt < maxRetries - 1 then
                (case analyze_loop prov jp contents (attempt + 1) of
                   (tr, r) \<Rightarrow>
                     (Invoke contents # Sleep (retry_delay_spa error attempt) # tr, r))
              else ([Invoke contents], Inl (js_Error (userMessage error attempt)))))
      else ([], Inl (js_Error msg_unknown)))"
  by pat_completeness auto
termination
  by (relation "measure (\<lambda>(prov, jp, contents, attempt). maxRetries - attempt)")
     (auto simp: maxRetries_def)

declare analyze_loop.simps [simp del]

text \<open>
  \<^verbatim>\<open>analyzeCreative(input, base64Image?)\<close>, with the value of
  \<^verbatim>\<open>VITE_GEMINI_API_KEY\<close> as first argument.
\<close>

definition analyzeCreative ::
  "string option \<Rightarrow> string option provider \<Rightarrow> json_parser \<Rightarrow> string \<Rightarrow> string option \<Rightarrow>
   event list \<times> (js_error + json)" where
  "analyzeCreative apiKey prov jp input base64Image =
     (if \<not> truthy apiKey then ([], Inl (js_Error msg_api_key))
      else
        (let contents =
               TextPart input #
               (case base64Image of
                  None \<Rightarrow> []
                | Some img \<Rightarrow>
                    if img \<noteq> [] then [InlineData ''image/png'' (strip_data_url img)] else [])
         in analyze_loop prov jp contents 0))"

subsection \<open>The API route: \<^verbatim>\<open>AnalyzeSchema\<close>, \<^verbatim>\<open>buildParts\<close>, \<^verbatim>\<open>attemptGeneration\<close>, \<^verbatim>\<open>POST\<close>\<close>

text \<open>
  \<^verbatim>\<open>AnalyzeSchema.safeParse(body)\<close>. The schema is an object of two optional strings
  with the refinement \<^verbatim>\<open>data.text || data.image\<close>. The checks of the schema library
  are written out: the body must be an object, each of the two keys must be absent or
  hold a string, and the refinement runs only when these checks passed.
\<close>

datatype issue =
    InvalidType "string list"
  | Custom string

definition msg_refine :: string where
  "msg_refine = ''Pelo menos texto ou imagem deve ser fornecido.''"

fun optional_string :: "string \<Rightarrow> json option \<Rightarrow> issue list + string option" where
  "optional_string key None = Inr None"
| "optional_string key (Some (JStr s)) = Inr (Some s)"
| "optional_string key (Some v) = Inl [InvalidType [key]]"

fun AnalyzeSchema :: "json \<Rightarrow> issue list + (string option \<times> string option)" where
  "AnalyzeSchema (JObj kvs) =
     (case optional_string ''text'' (map_of kvs ''text'') of
        Inl text_issues \<Rightarrow>
          (case optional_string ''image'' (map_of kvs ''image'') of
             Inl image_issues \<Rightarrow> Inl (text_issues @ image_issues)
           | Inr img \<Rightarrow> Inl text_issues)
      | Inr text \<Rightarrow>
          (case optional_string ''image'' (map_of kvs ''image'') of
             Inl image_issues \<Rightarrow> Inl image_issues
           | Inr img \<Rightarrow>
               if truthy text \<or> truthy img then Inr (text, img)
               else Inl [Custom msg_refine]))"
| "AnalyzeSchema body = Inl [InvalidType []]"

text \<open>\<^verbatim>\<open>buildParts(useImage)\<close>, with the \<^verbatim>\<open>text\<close> and \<^verbatim>\<open>image\<close> it closes over.\<close>

definition buildParts :: "string option \<Rightarrow> string option \<Rightarrow> bool \<Rightarrow> part list" where
  "buildParts text img useImage =
     (case text of None \<Rightarrow> [] | Some t \<Rightarrow> if t \<noteq> [] then [TextPart t] else []) @
     (case img of
        None \<Rightarrow> []
      | Some i \<Rightarrow>
          if i \<noteq> [] \<and> useImage then [InlineData ''image/png'' (strip_data_url i)] else [])"

definition isQuotaError :: "js_error \<Rightarrow> bool" where
  "isQuotaError error =
     (status error = Some 429 \<or>
      opt_includes (message error) ''429'' \<or>
      opt_includes (message error) ''RESOURCE_EXHAUSTED'')"

definition isRetryable_route :: "js_error \<Rightarrow> bool" where
  "isRetryable_route error =
     (isQuotaError error \<or>
      status error = Some 503 \<or>
      status error = Some 500 \<or>
      opt_includes (message error) ''timeout'' \<or>
      opt_includes (message error) ''network'')"

text \<open>
  \<^verbatim>\<open>Math.pow(2, retryCount) * 2000\<close>, replaced by the requested delay when the error
  carries one that matches.
\<close>

definition retry_delay_route :: "js_error \<Rightarrow> nat \<Rightarrow> nat" where
  "retry_delay_route error retryCount =
     (case requested_delay error of
        None \<Rightarrow> 2 ^ retryCount * 2000
      | Some d \<Rightarrow> d)"

text \<open>
  The calls of a \<^verbatim>\<open>try\<close> block of the route: \<^verbatim>\<open>generateContent(parts)\<close>, then
  \<^verbatim>\<open>JSON.parse(response.text())\<close>, whose \<^verbatim>\<open>SyntaxError\<close> reaches the same handler.
\<close>

definition route_try ::
  "string provider \<Rightarrow> json_parser \<Rightarrow> part list \<Rightarrow> nat \<Rightarrow> js_error + json" where
  "route_try prov jp parts i =
     (case prov i parts of
        Inl error \<Rightarrow> Inl error
      | Inr text \<Rightarrow>
          (case jp text of
             Inl syntax_message \<Rightarrow> Inl (js_Error syntax_message)
           | Inr v \<Rightarrow> Inr v))"

definition msg_warning :: string where
  "msg_warning =
     ''A an'' @ [CHR 0xC3, CHR 0xA1] @ ''lise visual falhou (Erro/Seguran'' @ [CHR 0xC3, CHR 0xA7] @
     ''a). Resultados baseados apenas em texto.''"

text \<open>
  The own enumerable properties an object spread copies: those of an object, the
  indexed elements of an array, the indexed characters of a string (its bytes here,
  which are its characters for an ASCII string), none of any other value.
\<close>

fun own_properties :: "json \<Rightarrow> (string \<times> json) list" where
  "own_properties (JObj kvs) = kvs"
| "own_properties (JArr xs) = map (\<lambda>(i, x). (show_nat i, x)) (enumerate 0 xs)"
| "own_properties (JStr s) = map (\<lambda>(i, c). (show_nat i, JStr [c])) (enumerate 0 s)"
| "own_properties v = []"

text \<open>\<^verbatim>\<open>{ ...parsed, warning: "..." }\<close>\<close>

definition with_warning :: "json \<Rightarrow> json" where
  "with_warning parsed = JObj (AList.update ''warning'' (JStr msg_warning) (own_properties parsed))"

text \<open>
  \<^verbatim>\<open>attemptGeneration(retryCount = 0)\<close>. The attempt at \<open>retryCount\<close> is invocation
  number \<open>retryCount\<close> of the call, and the text-only fallback made there is number
  \<open>retryCount + 1\<close>.
\<close>

function attemptGeneration ::
  "string provider \<Rightarrow> json_parser \<Rightarrow> string option \<Rightarrow> string option \<Rightarrow> nat \<Rightarrow>
   event list \<times> (js_error + json)"
where
  "attemptGeneration prov jp text img retryCount =
     (let useImage = truthy img; parts = buildParts text img useImage in
      case route_try prov jp parts retryCount of
        Inr v \<Rightarrow> ([Invoke parts], Inr v)
      | Inl error \<Rightarrow>
          (if retryCount < 3 \<and> isRetryable_route error then
             (case attemptGeneration prov jp text img (retryCount + 1) of
                (tr, r) \<Rightarrow>
                  (Invoke parts # Sleep (retry_delay_route error retryCount) # tr, r))
           else if useImage \<and> truthy text \<and> retryCount \<ge> 1 then
             (let textParts = buildParts text img False in
              case route_try prov jp textParts (retryCount + 1) of
                Inr v \<Rightarrow> ([Invoke parts, Invoke textParts], Inr (with_warning v))
              | Inl fallbackError \<Rightarrow> ([Invoke parts, Invoke textParts], Inl fallbackError))
           else ([Invoke parts], Inl error)))"
  by pat_completeness auto
termination
  by (relation "measure (\<lambda>(prov, jp, text, img, retryCount). 3 - retryCount)") auto

declare attemptGeneration.simps [simp del]

record env =
  GEMINI_API_KEY :: "string option"
  NODE_ENV :: "string option"

text \<open>
  The JSON body and the status of a response. \<^verbatim>\<open>details\<close> holds the validation
  issues, or in development mode the message of the error (its stack is not
  modelled).
\<close>

datatype details_field =
    Issues "issue list"
  | DevDetails "string option"

datatype response_body =
    ResultBody json
  | ErrorBody string "details_field option"

record http_response =
  http_status :: nat
  http_body :: response_body

definition msg_invalid_input :: string where
  "msg_invalid_input = ''Input inv'' @ [CHR 0xC3, CHR 0xA1] @ ''lido''"

definition msg_no_api_key :: string where
  "msg_no_api_key =
     ''Configura'' @ [CHR 0xC3, CHR 0xA7, CHR 0xC3, CHR 0xA3] @ ''o de API Key ausente no servidor.''"

definition msg_quota :: string where
  "msg_quota =
     ''Limite de requisi'' @ [CHR 0xC3, CHR 0xA7, CHR 0xC3, CHR 0xB5] @
     ''es excedido. Por favor, tente novamente em alguns instantes.''"

definition msg_internal :: string where
  "msg_internal = ''Erro interno no processamento de IA.''"

text \<open>
  The outer \<^verbatim>\<open>catch\<close> of \<^verbatim>\<open>POST\<close>. \<^verbatim>\<open>NextResponse.json\<close> throws a \<^verbatim>\<open>RangeError\<close>
  for a status outside 200 to 599; the model answers with every status, which is
  exact for the 4xx and 5xx statuses of provider errors.
\<close>

definition error_response :: "env \<Rightarrow> js_error \<Rightarrow> http_response" where
  "error_response e error =
     (let isQuota = isQuotaError error;
          isDev = (NODE_ENV e = Some ''development'')
      in \<lparr>http_status = (case status error of None \<Rightarrow> 500 | Some s \<Rightarrow> if s \<noteq> 0 then s else 500),
          http_body = ErrorBody (if isQuota then msg_quota else msg_internal)
                        (if isDev then Some (DevDetails (message error)) else None)\<rparr>)"

text \<open>
  \<^verbatim>\<open>POST(req)\<close>. The last argument is the outcome of \<^verbatim>\<open>await req.json()\<close>: the body, or
  the error it throws.
\<close>

definition POST ::
  "env \<Rightarrow> string provider \<Rightarrow> json_parser \<Rightarrow> js_error + json \<Rightarrow> event list \<times> http_response" where
  "POST e prov jp req_json =
     (case req_json of
        Inl error \<Rightarrow> ([], error_response e error)
      | Inr body \<Rightarrow>
          (case AnalyzeSchema body of
             Inl issues \<Rightarrow>
               ([], \<lparr>http_status = 400,
                     http_body = ErrorBody msg_invalid_input (Some (Issues issues))\<rparr>)
           | Inr (text, img) \<Rightarrow>
               if \<not> truthy (GEMINI_API_KEY e) then
                 ([], \<lparr>http_status = 500, http_body = ErrorBody msg_no_api_key None\<rparr>)
               else
                 (case attemptGeneration prov jp text img 0 of
                    (tr, Inr finalResult) \<Rightarrow>
                      (tr, \<lparr>http_status = 200, http_body = ResultBody finalResult\<rparr>)
                  | (tr, Inl error) \<Rightarrow> (tr, error_response e error))))"

subsection \<open>Example inputs\<close>

text \<open>
  The concrete inputs the examples below run on. \<open>JSON_parse_sample\<close> stands for
  \<^verbatim>\<open>JSON.parse\<close> on the three response texts of the examples: the empty object
  \<^verbatim>\<open>{}\<close>, the empty text and the text \<^verbatim>\<open>not json\<close>; it is applied to no other text.
\<close>

definition JSON_parse_sample :: json_parser where
  "JSON_parse_sample s =
     (if s = ''{}'' then Inr (JObj [])
      else if s = [] then Inl ''Unexpected end of JSON input''
      else Inl ''Unexpected token o in JSON at position 1'')"

definition env_with_key :: env where
  "env_with_key = \<lparr>GEMINI_API_KEY = Some ''secret-key'', NODE_ENV = None\<rparr>"

definition env_without_key :: env where
  "env_without_key = \<lparr>GEMINI_API_KEY = None, NODE_ENV = None\<rparr>"

definition body_empty_strings :: json where
  "body_empty_strings = JObj [(''text'', JStr []), (''image'', JStr [])]"

definition body_no_fields :: json where
  "body_no_fields = JObj []"

definition body_text :: json where
  "body_text = JObj [(''text'', JStr ''hello'')]"

definition body_text_image :: json where
  "body_text_image =
     JObj [(''text'', JStr ''hello''), (''image'', JStr ''data:image/png;base64,AAAA'')]"

definition error_429 :: js_error where
  "error_429 = \<lparr>status = Some 429, message = Some ''Too Many Requests'', details = None\<rparr>"

definition error_500 :: js_error where
  "error_500 = \<lparr>status = Some 500, message = Some ''Internal error'', details = None\<rparr>"

definition error_400 :: js_error where
  "error_400 = \<lparr>status = Some 400, message = Some ''Unable to process input image'', details = None\<rparr>"

definition error_403 :: js_error where
  "error_403 = \<lparr>status = Some 403, message = Some ''Permission denied'', details = None\<rparr>"

definition retry_info_5s :: detail where
  "retry_info_5s =
     \<lparr>at_type = Some ''type.googleapis.com/google.rpc.RetryInfo'', retryDelay = Some ''5s''\<rparr>"

definition error_429_retry_5s :: js_error where
  "error_429_retry_5s =
     \<lparr>status = Some 429, message = Some ''Too Many Requests'', details = Some [retry_info_5s]\<rparr>"

definition retry_info_fraction :: detail where
  "retry_info_fraction =
     \<lparr>at_type = Some ''type.googleapis.com/google.rpc.RetryInfo'', retryDelay = Some ''1.5s''\<rparr>"

definition retry_info_7s :: detail where
  "retry_info_7s =
     \<lparr>at_type = Some ''type.googleapis.com/google.rpc.RetryInfo'', retryDelay = Some ''7s''\<rparr>"

text \<open>Two retry-info details, the first with a delay that is not of the form.\<close>

definition error_429_retry_fraction :: js_error where
  "error_429_retry_fraction =
     \<lparr>status = Some 429, message = Some ''Too Many Requests'',
      details = Some [retry_info_fraction, retry_info_7s]\<rparr>"

definition always_429 :: "'r provider" where
  "always_429 i parts = Inl error_429"

definition always_429_retry_5s :: "'r provider" where
  "always_429_retry_5s i parts = Inl error_429_retry_5s"

definition always_429_retry_fraction :: "'r provider" where
  "always_429_retry_fraction i parts = Inl error_429_retry_fraction"

definition always_500 :: "'r provider" where
  "always_500 i parts = Inl error_500"

text \<open>Fails with 429, then with 400, then (the text-only call) with 403.\<close>

definition fails_429_400_403 :: "'r provider" where
  "fails_429_400_403 i parts =
     (if i = 0 then Inl error_429 else if i = 1 then Inl error_400 else Inl error_403)"

text \<open>Fails twice with 429, then answers with the empty object.\<close>

definition recovers_at_third :: "string provider" where
  "recovers_at_third i parts = (if i < 2 then Inl error_429 else Inr ''{}'')"

definition recovers_at_third_spa :: "string option provider" where
  "recovers_at_third_spa i parts = (if i < 2 then Inl error_429 else Inr (Some ''{}''))"

text \<open>Fails with 400 whenever an image part is sent, answers a text-only request.\<close>

definition rejects_image :: "string provider" where
  "rejects_image i parts =
     (if parts = [TextPart ''hello''] then Inr ''{}''
      else if i = 0 then Inl error_429 else Inl error_400)"

definition answers_empty_object :: "string provider" where
  "answers_empty_object i parts = Inr ''{}''"

definition answers_empty_object_spa :: "string option provider" where
  "answers_empty_object_spa i parts = Inr (Some ''{}'')"

definition answers_nothing :: "string option provider" where
  "answers_nothing i parts = Inr None"

definition answers_not_json :: "string option provider" where
  "answers_not_json i parts = Inr (Some ''not json'')"

definition answers_not_json_route :: "string provider" where
  "answers_not_json_route i parts = Inr ''not json''"

section \<open>Properties\<close>

subsection \<open>One step of each controller\<close>

lemma analyze_loop_success:
  "attempt < maxRetries \<Longrightarrow> spa_try prov jp contents attempt = Inr parsed \<Longrightarrow>
   analyze_loop prov jp contents attempt = ([Invoke contents], Inr parsed)"
  by (subst analyze_loop.simps) simp

lemma analyze_loop_retry:
  "attempt < maxRetries - 1 \<Longrightarrow> spa_try prov jp contents attempt = Inl error \<Longrightarrow>
   isRetryable_spa error \<Longrightarrow>
   analyze_loop prov jp contents attempt =
     (Invoke contents # Sleep (retry_delay_spa error attempt) #
        fst (analyze_loop prov jp contents (attempt + 1)),
      snd (analyze_loop prov jp contents (attempt + 1)))"
  by (subst analyze_loop.simps) (simp add: split_beta)

lemma analyze_loop_final:
  "attempt < maxRetries \<Longrightarrow> spa_try prov jp contents attempt = Inl error \<Longrightarrow>
   \<not> (isRetryable_spa error \<and> attempt < maxRetries - 1) \<Longrightarrow>
   analyze_loop prov jp contents attempt =
     ([Invoke contents], Inl (js_Error (userMessage error attempt)))"
  by (subst analyze_loop.simps) auto

lemma attemptGeneration_success:
  "route_try prov jp (buildParts text img (truthy img)) r = Inr v \<Longrightarrow>
   attemptGeneration prov jp text img r = ([Invoke (buildParts text img (truthy img))], Inr v)"
  by (subst attemptGeneration.simps) simp

lemma attemptGeneration_retry:
  "route_try prov jp (buildParts text img (truthy img)) r = Inl error \<Longrightarrow>
   r < 3 \<Longrightarrow> isRetryable_route error \<Longrightarrow>
   attemptGeneration prov jp text img r =
     (Invoke (buildParts text img (truthy img)) # Sleep (retry_delay_route error r) #
        fst (attemptGeneration prov jp text img (r + 1)),
      snd (attemptGeneration prov jp text img (r + 1)))"
  by (subst attemptGeneration.simps) (simp add: split_beta)

lemma attemptGeneration_fallback:
  "route_try prov jp (buildParts text img (truthy img)) r = Inl error \<Longrightarrow>
   \<not> (r < 3 \<and> isRetryable_route error) \<Longrightarrow>
   truthy img \<Longrightarrow> truthy text \<Longrightarrow> 1 \<le> r \<Longrightarrow>
   attemptGeneration prov jp text img r =
     ([Invoke (buildParts text img (truthy img)), Invoke (buildParts text img False)],
      case route_try prov jp (buildParts text img False) (r + 1) of
        Inr v \<Rightarrow> Inr (with_warning v)
      | Inl fallbackError \<Rightarrow> Inl fallbackError)"
  by (subst attemptGeneration.simps) (auto split: sum.splits)

lemma attemptGeneration_fail:
  "route_try prov jp (buildParts text img (truthy img)) r = Inl error \<Longrightarrow>
   \<not> (r < 3 \<and> isRetryable_route error) \<Longrightarrow>
   \<not> (truthy img \<and> truthy text \<and> 1 \<le> r) \<Longrightarrow>
   attemptGeneration prov jp text img r =
     ([Invoke (buildParts text img (truthy img))], Inl error)"
  by (subst attemptGeneration.simps) auto

subsection \<open>Input validation\<close>

text \<open>
  Claim C9. A submission whose \<^verbatim>\<open>text\<close> and \<^verbatim>\<open>image\<close> are each absent or the empty
  string fails the schema with the empty-input issue; the route answers 400 with it,
  and the trace is empty: the provider is never called.
\<close>

theorem empty_submission_rejected:
  assumes "map_of kvs ''text'' = None \<or> map_of kvs ''text'' = Some (JStr [])"
      and "map_of kvs ''image'' = None \<or> map_of kvs ''image'' = Some (JStr [])"
  shows "AnalyzeSchema (JObj kvs) = Inl [Custom msg_refine] \<and>
         POST e prov jp (Inr (JObj kvs)) =
           ([], \<lparr>http_status = 400,
                 http_body = ErrorBody msg_invalid_input (Some (Issues [Custom msg_refine]))\<rparr>)"
proof -
  have "AnalyzeSchema (JObj kvs) = Inl [Custom msg_refine]"
    using assms by auto
  then show ?thesis
    by (simp add: POST_def)
qed

theorem empty_submission_rejected_witness:
  "POST env_with_key always_429 JSON_parse_sample (Inr body_empty_strings) =
     ([], \<lparr>http_status = 400,
           http_body = ErrorBody msg_invalid_input (Some (Issues [Custom msg_refine]))\<rparr>)"
proof -
  have t: "map_of [(''text'', JStr []), (''image'', JStr [])] ''text'' = None \<or>
           map_of [(''text'', JStr []), (''image'', JStr [])] ''text'' = Some (JStr [])"
    by simp
  have i: "map_of [(''text'', JStr []), (''image'', JStr [])] ''image'' = None \<or>
           map_of [(''text'', JStr []), (''image'', JStr [])] ''image'' = Some (JStr [])"
    by simp
  show ?thesis
    unfolding body_empty_strings_def
    using empty_submission_rejected [OF t i, of env_with_key always_429 JSON_parse_sample]
    by (rule conjunct2)
qed

subsection \<open>The retry bound\<close>

lemma spa_try_error: "prov i c = Inl e \<Longrightarrow> spa_try prov jp c i = Inl e"
  by (simp add: spa_try_def)

lemma route_try_error: "prov i ps = Inl e \<Longrightarrow> route_try prov jp ps i = Inl e"
  by (simp add: route_try_def)

lemma status_429_retryable_spa: "status e = Some 429 \<Longrightarrow> isRetryable_spa e"
  by (simp add: isRetryable_spa_def)

lemma status_429_retryable_route: "status e = Some 429 \<Longrightarrow> isRetryable_route e"
  by (simp add: isRetryable_route_def isQuotaError_def)

lemma userMessage_429: "status e = Some 429 \<Longrightarrow> userMessage e attempt = msg_overloaded"
  by (simp add: userMessage_def)

lemma buildParts_useImage: "buildParts text img (truthy img) = buildParts text img True"
  by (cases img) (auto simp: buildParts_def)

lemma analyze_loop_next:
  "attempt < maxRetries - 1 \<Longrightarrow> spa_try prov jp contents attempt = Inl error \<Longrightarrow>
   isRetryable_spa error \<Longrightarrow> analyze_loop prov jp contents n = (tr, r) \<Longrightarrow> n = attempt + 1 \<Longrightarrow>
   analyze_loop prov jp contents attempt =
     (Invoke contents # Sleep (retry_delay_spa error attempt) # tr, r)"
  by (simp add: analyze_loop_retry)

lemma attemptGeneration_next:
  "route_try prov jp (buildParts text img True) r = Inl error \<Longrightarrow>
   r < 3 \<Longrightarrow> isRetryable_route error \<Longrightarrow>
   attemptGeneration prov jp text img n = (tr, res) \<Longrightarrow> n = r + 1 \<Longrightarrow>
   attemptGeneration prov jp text img r =
     (Invoke (buildParts text img True) # Sleep (retry_delay_route error r) # tr, res)"
  by (simp add: attemptGeneration_retry buildParts_useImage)

lemma analyze_loop_all_429:
  assumes fail: "\<And>i. \<exists>e. spa_try prov jp c i = Inl e \<and> status e = Some 429"
  shows "\<exists>d0 d1 d2.
           analyze_loop prov jp c 0 =
             ([Invoke c, Sleep d0, Invoke c, Sleep d1, Invoke c, Sleep d2, Invoke c],
              Inl (js_Error msg_overloaded))"
proof -
  obtain e0 where e0: "spa_try prov jp c 0 = Inl e0" "status e0 = Some 429"
    using fail by blast
  obtain e1 where e1: "spa_try prov jp c 1 = Inl e1" "status e1 = Some 429"
    using fail by blast
  obtain e2 where e2: "spa_try prov jp c 2 = Inl e2" "status e2 = Some 429"
    using fail by blast
  obtain e3 where e3: "spa_try prov jp c 3 = Inl e3" "status e3 = Some 429"
    using fail by blast
  have l3: "analyze_loop prov jp c 3 = ([Invoke c], Inl (js_Error msg_overloaded))"
    using analyze_loop_final [OF _ e3(1)] e3(2)
    by (simp add: maxRetries_def userMessage_429)
  have l2: "analyze_loop prov jp c 2 =
              ([Invoke c, Sleep (retry_delay_spa e2 2), Invoke c], Inl (js_Error msg_overloaded))"
    by (rule analyze_loop_next [OF _ e2(1) status_429_retryable_spa [OF e2(2)] l3])
       (simp_all add: maxRetries_def)
  have l1: "analyze_loop prov jp c 1 =
              ([Invoke c, Sleep (retry_delay_spa e1 1), Invoke c, Sleep (retry_delay_spa e2 2),
                Invoke c], Inl (js_Error msg_overloaded))"
    by (rule analyze_loop_next [OF _ e1(1) status_429_retryable_spa [OF e1(2)] l2])
       (simp_all add: maxRetries_def)
  have l0: "analyze_loop prov jp c 0 =
              ([Invoke c, Sleep (retry_delay_spa e0 0), Invoke c, Sleep (retry_delay_spa e1 1),
                Invoke c, Sleep (retry_delay_spa e2 2), Invoke c], Inl (js_Error msg_overloaded))"
    by (rule analyze_loop_next [OF _ e0(1) status_429_retryable_spa [OF e0(2)] l1])
       (simp_all add: maxRetries_def)
  then show ?thesis by blast
qed

lemma attemptGeneration_last_429:
  assumes e3: "route_try prov jp (buildParts text img True) 3 = Inl e3" "status e3 = Some 429"
      and fb: "\<exists>e. route_try prov jp (buildParts text img False) 4 = Inl e \<and> status e = Some 429"
  shows "\<exists>e. attemptGeneration prov jp text img 3 =
           (Invoke (buildParts text img True) #
              (if truthy text \<and> truthy img then [Invoke (buildParts text img False)] else []),
            Inl e) \<and> status e = Some 429"
proof (cases "truthy text \<and> truthy img")
  case True
  obtain f where f: "route_try prov jp (buildParts text img False) 4 = Inl f" "status f = Some 429"
    using fb by blast
  have "attemptGeneration prov jp text img 3 =
          ([Invoke (buildParts text img True), Invoke (buildParts text img False)], Inl f)"
    using attemptGeneration_fallback [of prov jp "text" img 3 e3] e3 True f
    by (simp add: buildParts_useImage)
  with True f show ?thesis by simp
next
  case False
  have "attemptGeneration prov jp text img 3 = ([Invoke (buildParts text img True)], Inl e3)"
    using attemptGeneration_fail [of prov jp "text" img 3 e3] e3 False
    by (auto simp: buildParts_useImage)
  with False e3 show ?thesis by simp
qed

lemma attemptGeneration_all_429:
  assumes fail: "\<And>i ps. \<exists>e. route_try prov jp ps i = Inl e \<and> status e = Some 429"
  shows "\<exists>d0 d1 d2 e.
           attemptGeneration prov jp text img 0 =
             (Invoke (buildParts text img True) # Sleep d0 #
              Invoke (buildParts text img True) # Sleep d1 #
              Invoke (buildParts text img True) # Sleep d2 #
              Invoke (buildParts text img True) #
              (if truthy text \<and> truthy img then [Invoke (buildParts text img False)] else []),
              Inl e) \<and> status e = Some 429"
proof -
  let ?p = "buildParts text img True"
  obtain e0 where e0: "route_try prov jp ?p 0 = Inl e0" "status e0 = Some 429"
    using fail by blast
  obtain e1 where e1: "route_try prov jp ?p 1 = Inl e1" "status e1 = Some 429"
    using fail by blast
  obtain e2 where e2: "route_try prov jp ?p 2 = Inl e2" "status e2 = Some 429"
    using fail by blast
  obtain e3 where e3: "route_try prov jp ?p 3 = Inl e3" "status e3 = Some 429"
    using fail by blast
  obtain e where l3:
    "attemptGeneration prov jp text img 3 =
       (Invoke ?p # (if truthy text \<and> truthy img then [Invoke (buildParts text img False)] else []),
        Inl e)" "status e = Some 429"
    using attemptGeneration_last_429 [OF e3 fail] by blast
  let ?fb = "if truthy text \<and> truthy img then [Invoke (buildParts text img False)] else []"
  have l2: "attemptGeneration prov jp text img 2 =
              (Invoke ?p # Sleep (retry_delay_route e2 2) # Invoke ?p # ?fb, Inl e)"
    by (rule attemptGeneration_next [OF e2(1) _ status_429_retryable_route [OF e2(2)] l3(1)])
       simp_all
  have l1: "attemptGeneration prov jp text img 1 =
              (Invoke ?p # Sleep (retry_delay_route e1 1) #
               Invoke ?p # Sleep (retry_delay_route e2 2) # Invoke ?p # ?fb, Inl e)"
    by (rule attemptGeneration_next [OF e1(1) _ status_429_retryable_route [OF e1(2)] l2])
       simp_all
  have l0: "attemptGeneration prov jp text img 0 =
              (Invoke ?p # Sleep (retry_delay_route e0 0) #
               Invoke ?p # Sleep (retry_delay_route e1 1) #
               Invoke ?p # Sleep (retry_delay_route e2 2) # Invoke ?p # ?fb, Inl e)"
    by (rule attemptGeneration_next [OF e0(1) _ status_429_retryable_route [OF e0(2)] l1])
       simp_all
  show ?thesis
    using l0 l3(2) by blast
qed

lemma error_response_429:
  "status e = Some 429 \<Longrightarrow>
   http_status (error_response en e) = 429 \<and>
   (\<exists>d. http_body (error_response en e) = ErrorBody msg_quota d)"
  by (simp add: error_response_def isQuotaError_def)

text \<open>
  Claim C1, as the code has it. Against a provider that fails every invocation with
  status 429: the browser service makes exactly \<open>maxRetries\<close> invocations and throws
  the error with the overloaded-service message; the route makes exactly four
  invocations with the full content, followed by one text-only invocation when the
  request has both text and image, and answers with status 429 and the quota message.
\<close>

theorem retry_bound_429:
  assumes spa: "\<And>i ps. \<exists>e. provS i ps = Inl e \<and> status e = Some 429"
      and route: "\<And>i ps. \<exists>e. provR i ps = Inl e \<and> status e = Some 429"
      and keyS: "truthy apiKey"
      and keyR: "truthy (GEMINI_API_KEY en)"
      and valid: "AnalyzeSchema body = Inr (text, img)"
  shows "invocations (fst (analyzeCreative apiKey provS jp input base64Image)) = maxRetries \<and>
         snd (analyzeCreative apiKey provS jp input base64Image) = Inl (js_Error msg_overloaded) \<and>
         filter is_Invoke (fst (POST en provR jp (Inr body))) =
           replicate 4 (Invoke (buildParts text img True)) @
           (if truthy text \<and> truthy img then [Invoke (buildParts text img False)] else []) \<and>
         http_status (snd (POST en provR jp (Inr body))) = 429 \<and>
         (\<exists>d. http_body (snd (POST en provR jp (Inr body))) = ErrorBody msg_quota d)"
proof -
  have s: "\<And>c i. \<exists>e. spa_try provS jp c i = Inl e \<and> status e = Some 429"
    using spa spa_try_error by metis
  have r: "\<And>i ps. \<exists>e. route_try provR jp ps i = Inl e \<and> status e = Some 429"
    using route route_try_error by metis
  have A: "invocations (fst (analyzeCreative apiKey provS jp input base64Image)) = maxRetries \<and>
         snd (analyzeCreative apiKey provS jp input base64Image) = Inl (js_Error msg_overloaded)"
  proof -
    define c where "c = TextPart input #
               (case base64Image of
                  None \<Rightarrow> []
                | Some img \<Rightarrow>
                    if img \<noteq> [] then [InlineData ''image/png'' (strip_data_url img)] else [])"
    have "analyzeCreative apiKey provS jp input base64Image = analyze_loop provS jp c 0"
      using keyS by (simp add: analyzeCreative_def c_def)
    moreover obtain d0 d1 d2 where "analyze_loop provS jp c 0 =
             ([Invoke c, Sleep d0, Invoke c, Sleep d1, Invoke c, Sleep d2, Invoke c],
              Inl (js_Error msg_overloaded))"
      using analyze_loop_all_429 [of provS jp c, OF s] by blast
    ultimately show ?thesis
      by (simp add: invocations_def maxRetries_def)
  qed
  obtain d0 d1 d2 e where ag: "attemptGeneration provR jp text img 0 =
             (Invoke (buildParts text img True) # Sleep d0 #
              Invoke (buildParts text img True) # Sleep d1 #
              Invoke (buildParts text img True) # Sleep d2 #
              Invoke (buildParts text img True) #
              (if truthy text \<and> truthy img then [Invoke (buildParts text img False)] else []),
              Inl e)" and e: "status e = Some 429"
    using attemptGeneration_all_429 [of provR jp "text" img, OF r] by blast
  have P: "POST en provR jp (Inr body) =
            (Invoke (buildParts text img True) # Sleep d0 #
             Invoke (buildParts text img True) # Sleep d1 #
             Invoke (buildParts text img True) # Sleep d2 #
             Invoke (buildParts text img True) #
             (if truthy text \<and> truthy img then [Invoke (buildParts text img False)] else []),
             error_response en e)"
    using keyR valid by (simp add: POST_def ag)
  have B: "filter is_Invoke (fst (POST en provR jp (Inr body))) =
           replicate 4 (Invoke (buildParts text img True)) @
           (if truthy text \<and> truthy img then [Invoke (buildParts text img False)] else [])"
    unfolding P by (simp add: numeral_eq_Suc)
  have C: "http_status (snd (POST en provR jp (Inr body))) = 429 \<and>
         (\<exists>d. http_body (snd (POST en provR jp (Inr body))) = ErrorBody msg_quota d)"
    unfolding P using error_response_429 [OF e] by simp
  from A B C show ?thesis by blast
qed


text \<open>The theorem at a text-only request, and the route at a request with text and image:
  five invocations, one more than \<open>maxRetries\<close>.\<close>

theorem retry_bound_429_witness:
  "invocations (fst (analyzeCreative (Some ''secret-key'') always_429 JSON_parse_sample ''hello'' None))
     = maxRetries \<and>
   snd (analyzeCreative (Some ''secret-key'') always_429 JSON_parse_sample ''hello'' None)
     = Inl (js_Error msg_overloaded) \<and>
   filter is_Invoke (fst (POST env_with_key always_429 JSON_parse_sample (Inr body_text)))
     = replicate 4 (Invoke [TextPart ''hello'']) \<and>
   http_status (snd (POST env_with_key always_429 JSON_parse_sample (Inr body_text))) = 429"
proof -
  have s: "\<And>i ps. \<exists>e. (always_429 :: string option provider) i ps = Inl e \<and> status e = Some 429"
    by (simp add: always_429_def error_429_def)
  have r: "\<And>i ps. \<exists>e. (always_429 :: string provider) i ps = Inl e \<and> status e = Some 429"
    by (simp add: always_429_def error_429_def)
  have k: "truthy (Some ''secret-key'')" "truthy (GEMINI_API_KEY env_with_key)"
    by (simp_all add: env_with_key_def)
  have v: "AnalyzeSchema body_text = Inr (Some ''hello'', None)"
    by (simp add: body_text_def)
  show ?thesis
    using retry_bound_429
            [where jp = JSON_parse_sample and input = "''hello''" and base64Image = None,
             OF s r k v]
    by (simp add: buildParts_def)
qed

theorem retry_bound_429_counterexample:
  "invocations (fst (POST env_with_key always_429 JSON_parse_sample (Inr body_text_image))) = 5 \<and>
   maxRetries = 4"
  by (simp add: POST_def body_text_image_def env_with_key_def attemptGeneration.simps
      route_try_def always_429_def error_429_def isRetryable_route_def isQuotaError_def
      buildParts_def invocations_def maxRetries_def split_beta)

subsection \<open>The API key\<close>

text \<open>
  Claim C10, as the code has it. Without an API key the browser service throws the
  configuration error for every input, and the route answers 500 with the
  configuration message for every submission that passed the schema; in both the
  trace is empty, so the provider is not called and no attempt is made.
\<close>

theorem missing_api_key_fails_first:
  assumes "\<not> truthy apiKey"
      and "\<not> truthy (GEMINI_API_KEY en)"
      and "AnalyzeSchema body = Inr (text, img)"
  shows "analyzeCreative apiKey provS jp input base64Image = ([], Inl (js_Error msg_api_key)) \<and>
         POST en provR jp (Inr body) =
           ([], \<lparr>http_status = 500, http_body = ErrorBody msg_no_api_key None\<rparr>)"
  using assms by (simp add: analyzeCreative_def POST_def)

theorem missing_api_key_fails_first_witness:
  "analyzeCreative None answers_nothing JSON_parse_sample ''hello'' None =
     ([], Inl (js_Error msg_api_key)) \<and>
   POST env_without_key answers_empty_object JSON_parse_sample (Inr body_text) =
     ([], \<lparr>http_status = 500, http_body = ErrorBody msg_no_api_key None\<rparr>)"
proof -
  have k: "\<not> truthy None" "\<not> truthy (GEMINI_API_KEY env_without_key)"
    by (simp_all add: env_without_key_def)
  have v: "AnalyzeSchema body_text = Inr (Some ''hello'', None)"
    by (simp add: body_text_def)
  show ?thesis
    by (rule missing_api_key_fails_first [OF k v])
qed

text \<open>The route validates first: an empty submission is answered with 400, key or no key.\<close>

theorem missing_api_key_counterexample:
  "GEMINI_API_KEY env_without_key = None \<and>
   POST env_without_key answers_empty_object JSON_parse_sample (Inr body_no_fields) =
     ([], \<lparr>http_status = 400,
           http_body = ErrorBody msg_invalid_input (Some (Issues [Custom msg_refine]))\<rparr>)"
  by (simp add: POST_def body_no_fields_def env_without_key_def)

subsection \<open>Which errors are retried\<close>

lemma isRetryable_spa_iff:
  "isRetryable_spa e =
     (status e = Some 429 \<or> status e = Some 503 \<or>
      (\<exists>m. message e = Some m \<and>
           (js_includes m ''Resource has been exhausted'' \<or> js_includes m ''Quota exceeded'')))"
  by (cases "message e") (auto simp: isRetryable_spa_def js_includes_def)

lemma isRetryable_route_iff:
  "isRetryable_route f =
     (status f = Some 429 \<or> status f = Some 503 \<or> status f = Some 500 \<or>
      (\<exists>m. message f = Some m \<and>
           (js_includes m ''429'' \<or> js_includes m ''RESOURCE_EXHAUSTED'' \<or>
            js_includes m ''timeout'' \<or> js_includes m ''network'')))"
  by (cases "message f") (auto simp: isRetryable_route_def isQuotaError_def)

lemma attemptGeneration_not_retried:
  assumes "route_try prov jp (buildParts text img (truthy img)) r = Inl f"
      and "\<not> (r < 3 \<and> isRetryable_route f)"
  shows "fst (attemptGeneration prov jp text img r) = [Invoke (buildParts text img (truthy img))] \<or>
         fst (attemptGeneration prov jp text img r) =
           [Invoke (buildParts text img (truthy img)), Invoke (buildParts text img False)]"
proof (cases "truthy img \<and> truthy text \<and> 1 \<le> r")
  case True
  then show ?thesis
    using attemptGeneration_fallback [OF assms] by simp
next
  case False
  then show ?thesis
    using attemptGeneration_fail [OF assms] by simp
qed

text \<open>
  Claim C2, as the code has it. An error caught while attempts remain is retried (a
  wait follows the failed invocation) exactly when: in the browser service, its status
  is 429 or 503 or its message contains \<^verbatim>\<open>Resource has been exhausted\<close> or
  \<^verbatim>\<open>Quota exceeded\<close>; in the route, its status is 429, 503 or 500 or its message
  contains \<^verbatim>\<open>429\<close>, \<^verbatim>\<open>RESOURCE_EXHAUSTED\<close>, \<^verbatim>\<open>timeout\<close> or \<^verbatim>\<open>network\<close>. Any other
  error ends the call without a wait: the browser service throws its final error after
  this one invocation, and the route makes no further invocation other than the
  text-only fallback.
\<close>

theorem retryable_classification:
  assumes a: "attempt < maxRetries - 1"
      and e: "spa_try provS jp contents attempt = Inl e"
      and r: "r < 3"
      and f: "route_try provR jp (buildParts text img (truthy img)) r = Inl f"
  shows "(sleeps (fst (analyze_loop provS jp contents attempt)) \<noteq> []) =
           (status e = Some 429 \<or> status e = Some 503 \<or>
            (\<exists>m. message e = Some m \<and>
                 (js_includes m ''Resource has been exhausted'' \<or>
                  js_includes m ''Quota exceeded''))) \<and>
         (sleeps (fst (analyze_loop provS jp contents attempt)) = [] \<longrightarrow>
            analyze_loop provS jp contents attempt =
              ([Invoke contents], Inl (js_Error (userMessage e attempt)))) \<and>
         (sleeps (fst (attemptGeneration provR jp text img r)) \<noteq> []) =
           (status f = Some 429 \<or> status f = Some 503 \<or> status f = Some 500 \<or>
            (\<exists>m. message f = Some m \<and>
                 (js_includes m ''429'' \<or> js_includes m ''RESOURCE_EXHAUSTED'' \<or>
                  js_includes m ''timeout'' \<or> js_includes m ''network''))) \<and>
         (sleeps (fst (attemptGeneration provR jp text img r)) = [] \<longrightarrow>
            fst (attemptGeneration provR jp text img r) =
              [Invoke (buildParts text img (truthy img))] \<or>
            fst (attemptGeneration provR jp text img r) =
              [Invoke (buildParts text img (truthy img)), Invoke (buildParts text img False)])"
proof -
  have spa: "(sleeps (fst (analyze_loop provS jp contents attempt)) \<noteq> []) = isRetryable_spa e \<and>
         (sleeps (fst (analyze_loop provS jp contents attempt)) = [] \<longrightarrow>
            analyze_loop provS jp contents attempt =
              ([Invoke contents], Inl (js_Error (userMessage e attempt))))"
  proof (cases "isRetryable_spa e")
    case True
    then show ?thesis
      using analyze_loop_retry [OF a e] by simp
  next
    case False
    then have "analyze_loop provS jp contents attempt =
              ([Invoke contents], Inl (js_Error (userMessage e attempt)))"
      using analyze_loop_final [OF _ e] a by simp
    with False show ?thesis by simp
  qed
  have route: "(sleeps (fst (attemptGeneration provR jp text img r)) \<noteq> []) = isRetryable_route f \<and>
         (sleeps (fst (attemptGeneration provR jp text img r)) = [] \<longrightarrow>
            fst (attemptGeneration provR jp text img r) =
              [Invoke (buildParts text img (truthy img))] \<or>
            fst (attemptGeneration provR jp text img r) =
              [Invoke (buildParts text img (truthy img)), Invoke (buildParts text img False)])"
  proof (cases "isRetryable_route f")
    case True
    then show ?thesis
      using attemptGeneration_retry [OF f r] by simp
  next
    case False
    then have "fst (attemptGeneration provR jp text img r) =
              [Invoke (buildParts text img (truthy img))] \<or>
            fst (attemptGeneration provR jp text img r) =
              [Invoke (buildParts text img (truthy img)), Invoke (buildParts text img False)]"
      using attemptGeneration_not_retried [OF f] by simp
    with False show ?thesis by auto
  qed
  show ?thesis
    using spa route unfolding isRetryable_spa_iff isRetryable_route_iff by blast
qed

text \<open>The theorem at a 429 and a 500 on the first attempt and at a 400 on the second; and
  the route retrying a status 500 three times.\<close>

theorem retryable_classification_witness:
  "sleeps (fst (analyze_loop always_429 JSON_parse_sample [TextPart ''hello''] 0)) \<noteq> [] \<and>
   sleeps (fst (attemptGeneration always_500 JSON_parse_sample (Some ''hello'') None 0)) \<noteq> [] \<and>
   analyze_loop fails_429_400_403 JSON_parse_sample [TextPart ''hello''] 1 =
     ([Invoke [TextPart ''hello'']], Inl (js_Error (userMessage error_400 1))) \<and>
   sleeps (fst (attemptGeneration fails_429_400_403 JSON_parse_sample (Some ''hello'') None 1)) = []"
proof -
  have a0: "0 < maxRetries - 1" and a1: "1 < maxRetries - 1" and r0: "(0::nat) < 3" and r1: "(1::nat) < 3"
    by (simp_all add: maxRetries_def)
  have e0: "spa_try always_429 JSON_parse_sample [TextPart ''hello''] 0 = Inl error_429"
    by (simp add: spa_try_def always_429_def)
  have f0: "route_try always_500 JSON_parse_sample (buildParts (Some ''hello'') None (truthy None)) 0
              = Inl error_500"
    by (simp add: route_try_def always_500_def)
  have e1: "spa_try fails_429_400_403 JSON_parse_sample [TextPart ''hello''] 1 = Inl error_400"
    by (simp add: spa_try_def fails_429_400_403_def)
  have f1: "route_try fails_429_400_403 JSON_parse_sample
              (buildParts (Some ''hello'') None (truthy None)) 1 = Inl error_400"
    by (simp add: route_try_def fails_429_400_403_def)
  have incl: "\<not> js_includes ''Unable to process input image'' ''Resource has been exhausted''"
             "\<not> js_includes ''Unable to process input image'' ''Quota exceeded''"
             "\<not> js_includes ''Unable to process input image'' ''429''"
             "\<not> js_includes ''Unable to process input image'' ''RESOURCE_EXHAUSTED''"
             "\<not> js_includes ''Unable to process input image'' ''timeout''"
             "\<not> js_includes ''Unable to process input image'' ''network''"
    by (simp_all add: js_includes_def sublist_code(3))
  show ?thesis
    using retryable_classification [OF a0 e0 r0 f0] retryable_classification [OF a1 e1 r1 f1] incl
    by (simp add: error_429_def error_500_def error_400_def buildParts_def)
qed

theorem retryable_classification_counterexample:
  "status error_500 = Some 500 \<and>
   route_try always_500 JSON_parse_sample [TextPart ''hello''] 0 = Inl error_500 \<and>
   attemptGeneration always_500 JSON_parse_sample (Some ''hello'') None 0 =
     ([Invoke [TextPart ''hello''], Sleep 2000, Invoke [TextPart ''hello''], Sleep 4000,
       Invoke [TextPart ''hello''], Sleep 8000, Invoke [TextPart ''hello'']], Inl error_500)"
  by (simp add: attemptGeneration.simps route_try_def always_500_def error_500_def
      isRetryable_route_def isQuotaError_def buildParts_def retry_delay_route_def
      requested_delay_def find_retryInfo_def)

subsection \<open>The delay before a retry\<close>

lemma match_retryDelay_digits:
  assumes "ds \<noteq> []" and "list_all is_digit ds" and "u = ''s'' \<or> u = ''ms''"
  shows "match_retryDelay (ds @ u) = Some (ds, u)"
proof -
  have all: "\<And>x. x \<in> set ds \<Longrightarrow> is_digit x"
    using assms(2) by (simp add: list_all_iff)
  have nd: "\<not> is_digit (CHR ''s'')" "\<not> is_digit (CHR ''m'')"
    by (simp_all add: is_digit_def)
  have u: "dropWhile is_digit u = u" "takeWhile is_digit u = []"
    using assms(3) nd by auto
  have t: "takeWhile is_digit (ds @ u) = ds"
    using all u(2) by simp
  have d: "dropWhile is_digit (ds @ u) = u"
    using all u(1) by simp
  show ?thesis
    using assms(1,3) by (auto simp: match_retryDelay_def t d)
qed

lemma requested_delay_digits:
  assumes "ds \<noteq> []" and "list_all is_digit ds" and "u = ''s'' \<or> u = ''ms''"
      and "find_retryInfo e = Some ri" and "retryDelay ri = Some (ds @ u)"
  shows "requested_delay e = Some (if u = ''s'' then parseInt ds * 1000 else parseInt ds)"
  using assms(4,5) match_retryDelay_digits [OF assms(1,2,3)]
  by (simp add: requested_delay_def)

lemma retry_delay_spa_schedule:
  "requested_delay e = None \<Longrightarrow>
   retry_delay_spa e n = (if n < 4 then [2000, 5000, 15000, 35000] ! n else 35000)"
proof -
  assume "requested_delay e = None"
  moreover have "n < 4 \<Longrightarrow> [2000, 5000, 15000, 35000 :: nat] ! n \<noteq> 0"
  proof -
    assume "n < 4"
    then have "n = 0 \<or> n = 1 \<or> n = 2 \<or> n = 3" by arith
    then show ?thesis by auto
  qed
  ultimately show ?thesis
    by (simp add: retry_delay_spa_def backoffDelays_def)
qed


lemma find_first:
  "list_all (\<lambda>d. \<not> P d) pre \<Longrightarrow> P x \<Longrightarrow> find P (pre @ x # post) = Some x"
  by (induction pre) auto

lemma find_none: "list_all (\<lambda>d. \<not> P d) dl \<Longrightarrow> find P dl = None"
  by (induction dl) auto

lemma match_retryDelay_other:
  assumes "\<forall>ds u. rd = ds @ u \<and> ds \<noteq> [] \<and> list_all is_digit ds \<longrightarrow> u \<noteq> ''s'' \<and> u \<noteq> ''ms''"
  shows "match_retryDelay rd = None"
proof -
  define T where "T = takeWhile is_digit rd"
  define D where "D = dropWhile is_digit rd"
  have split: "rd = T @ D"
    by (simp add: T_def D_def)
  have digits: "list_all is_digit T"
    by (auto simp: T_def list_all_iff dest: set_takeWhileD)
  have "rd = T @ D \<and> T \<noteq> [] \<and> list_all is_digit T \<longrightarrow> D \<noteq> ''s'' \<and> D \<noteq> ''ms''"
    using assms by blast
  then have "\<not> (T \<noteq> [] \<and> (D = ''s'' \<or> D = ''ms''))"
    using split digits by blast
  then show ?thesis
    unfolding match_retryDelay_def Let_def T_def D_def by (rule if_not_P)
qed

lemma requested_delay_first:
  assumes "details e = Some (pre @ ri # post)"
      and "list_all (\<lambda>d. \<not> (opt_includes (at_type d) ''RetryInfo'' \<and> truthy (retryDelay d))) pre"
      and "opt_includes (at_type ri) ''RetryInfo''"
      and "retryDelay ri = Some (ds @ u)"
      and "ds \<noteq> []" and "list_all is_digit ds" and "u = ''s'' \<or> u = ''ms''"
  shows "requested_delay e = Some (if u = ''s'' then parseInt ds * 1000 else parseInt ds)"
proof -
  have "is_retryInfo ri"
    using assms(3,4,5) by (simp add: is_retryInfo_def)
  moreover have "list_all (\<lambda>d. \<not> is_retryInfo d) pre"
    using assms(2) by (simp add: is_retryInfo_def)
  ultimately have "find_retryInfo e = Some ri"
    using assms(1) by (simp add: find_retryInfo_def find_first)
  then show ?thesis
    using requested_delay_digits [OF assms(5,6,7) _ assms(4)] by simp
qed

lemma requested_delay_absent:
  assumes "details e = None \<or>
           (\<exists>dl. details e = Some dl \<and>
              list_all (\<lambda>d. \<not> (opt_includes (at_type d) ''RetryInfo'' \<and> truthy (retryDelay d))) dl) \<or>
           (\<exists>pre ri post rd.
              details e = Some (pre @ ri # post) \<and>
              list_all (\<lambda>d. \<not> (opt_includes (at_type d) ''RetryInfo'' \<and> truthy (retryDelay d))) pre \<and>
              opt_includes (at_type ri) ''RetryInfo'' \<and>
              retryDelay ri = Some rd \<and> rd \<noteq> [] \<and>
              (\<forall>ds u. rd = ds @ u \<and> ds \<noteq> [] \<and> list_all is_digit ds \<longrightarrow>
                      u \<noteq> ''s'' \<and> u \<noteq> ''ms''))"
  shows "requested_delay e = None"
  using assms
proof (elim disjE exE conjE)
  assume "details e = None"
  then show ?thesis
    by (simp add: requested_delay_def find_retryInfo_def)
next
  fix dl
  assume "details e = Some dl"
    and "list_all (\<lambda>d. \<not> (opt_includes (at_type d) ''RetryInfo'' \<and> truthy (retryDelay d))) dl"
  then have "find_retryInfo e = None"
    using find_none [of is_retryInfo dl] by (simp add: find_retryInfo_def is_retryInfo_def)
  then show ?thesis
    by (simp add: requested_delay_def)
next
  fix pre ri post rd
  assume d: "details e = Some (pre @ ri # post)"
    and p: "list_all (\<lambda>d. \<not> (opt_includes (at_type d) ''RetryInfo'' \<and> truthy (retryDelay d))) pre"
    and t: "opt_includes (at_type ri) ''RetryInfo''"
    and r: "retryDelay ri = Some rd" "rd \<noteq> []"
    and f: "\<forall>ds u. rd = ds @ u \<and> ds \<noteq> [] \<and> list_all is_digit ds \<longrightarrow> u \<noteq> ''s'' \<and> u \<noteq> ''ms''"
  have "is_retryInfo ri"
    using t r by (simp add: is_retryInfo_def)
  moreover have "list_all (\<lambda>d. \<not> is_retryInfo d) pre"
    using p by (simp add: is_retryInfo_def)
  ultimately have "find_retryInfo e = Some ri"
    using d by (simp add: find_retryInfo_def find_first)
  then show ?thesis
    using r(1) match_retryDelay_other [OF f] by (simp add: requested_delay_def)
qed

text \<open>
  Claim C3, as the code has it. The guidance of an error is the first element of its
  \<^verbatim>\<open>details\<close> whose \<^verbatim>\<open>@type\<close> contains \<^verbatim>\<open>RetryInfo\<close> and whose \<^verbatim>\<open>retryDelay\<close> is not
  empty. Let a retried error \<open>e\<close> have guidance whose delay is a digit string followed
  by \<^verbatim>\<open>s\<close> or \<^verbatim>\<open>ms\<close>, of \<open>ms\<close> milliseconds; and let a retried error \<open>e'\<close> have no
  details, or no guidance among them, or guidance whose delay is not of that form.
  After the failed invocation the route waits \<open>ms\<close> for \<open>e\<close> and
  \<open>2 ^ retryCount * 2000\<close> (2s, 4s, 8s) for \<open>e'\<close>; the browser service waits \<open>ms\<close> for
  \<open>e\<close> when \<open>ms\<close> is not 0, and for \<open>e'\<close> the entry of the schedule 2s, 5s, 15s, 35s
  at the attempt number, which is 0, 1 or 2 whenever it retries.
\<close>

theorem retry_delay_selection:
  assumes first: "details e = Some (pre @ ri # post)"
      and pre: "list_all (\<lambda>d. \<not> (opt_includes (at_type d) ''RetryInfo'' \<and> truthy (retryDelay d))) pre"
      and ty: "opt_includes (at_type ri) ''RetryInfo''"
      and rd: "retryDelay ri = Some (ds @ u)"
      and ds: "ds \<noteq> []" "list_all is_digit ds"
      and u: "u = ''s'' \<or> u = ''ms''"
      and ms: "ms = (if u = ''s'' then parseInt ds * 1000 else parseInt ds)"
      and exact: "parseInt ds * 1000 < 2 ^ 53"
      and none: "details e' = None \<or>
           (\<exists>dl. details e' = Some dl \<and>
              list_all (\<lambda>d. \<not> (opt_includes (at_type d) ''RetryInfo'' \<and> truthy (retryDelay d))) dl) \<or>
           (\<exists>pre' ri' post' rd'.
              details e' = Some (pre' @ ri' # post') \<and>
              list_all (\<lambda>d. \<not> (opt_includes (at_type d) ''RetryInfo'' \<and> truthy (retryDelay d))) pre' \<and>
              opt_includes (at_type ri') ''RetryInfo'' \<and>
              retryDelay ri' = Some rd' \<and> rd' \<noteq> [] \<and>
              (\<forall>ds' u'. rd' = ds' @ u' \<and> ds' \<noteq> [] \<and> list_all is_digit ds' \<longrightarrow>
                        u' \<noteq> ''s'' \<and> u' \<noteq> ''ms''))"
      and a: "attempt < maxRetries - 1"
      and r: "r < 3"
  shows "(route_try provR jp (buildParts text img (truthy img)) r = Inl e \<and> isRetryable_route e \<longrightarrow>
            take 2 (fst (attemptGeneration provR jp text img r)) =
              [Invoke (buildParts text img (truthy img)), Sleep ms]) \<and>
         (route_try provR jp (buildParts text img (truthy img)) r = Inl e' \<and> isRetryable_route e' \<longrightarrow>
            take 2 (fst (attemptGeneration provR jp text img r)) =
              [Invoke (buildParts text img (truthy img)), Sleep (2 ^ r * 2000)]) \<and>
         (spa_try provS jp contents attempt = Inl e \<and> isRetryable_spa e \<and> ms \<noteq> 0 \<longrightarrow>
            take 2 (fst (analyze_loop provS jp contents attempt)) =
              [Invoke contents, Sleep ms]) \<and>
         (spa_try provS jp contents attempt = Inl e' \<and> isRetryable_spa e' \<longrightarrow>
            take 2 (fst (analyze_loop provS jp contents attempt)) =
              [Invoke contents, Sleep ([2000, 5000, 15000, 35000] ! attempt)])"
proof -
  have rq: "requested_delay e = Some ms"
    using requested_delay_first [OF first pre ty rd ds u] ms by simp
  have none': "requested_delay e' = None"
    using requested_delay_absent [OF none] .
  have a4: "attempt < 4"
    using a by (simp add: maxRetries_def)
  have dr: "retry_delay_route e r = ms" "retry_delay_route e' r = 2 ^ r * 2000"
    using rq none' by (simp_all add: retry_delay_route_def)
  have dse: "ms \<noteq> 0 \<Longrightarrow> retry_delay_spa e attempt = ms"
    using rq by (simp add: retry_delay_spa_def)
  have dse': "retry_delay_spa e' attempt = [2000, 5000, 15000, 35000] ! attempt"
    using retry_delay_spa_schedule [OF none', of attempt] a4 by simp
  have c1: "route_try provR jp (buildParts text img (truthy img)) r = Inl e \<and> isRetryable_route e \<longrightarrow>
            take 2 (fst (attemptGeneration provR jp text img r)) =
              [Invoke (buildParts text img (truthy img)), Sleep ms]"
    using attemptGeneration_retry [of provR jp "text" img r e] r dr(1) by simp
  have c2: "route_try provR jp (buildParts text img (truthy img)) r = Inl e' \<and> isRetryable_route e' \<longrightarrow>
            take 2 (fst (attemptGeneration provR jp text img r)) =
              [Invoke (buildParts text img (truthy img)), Sleep (2 ^ r * 2000)]"
    using attemptGeneration_retry [of provR jp "text" img r e'] r dr(2) by simp
  have c3: "spa_try provS jp contents attempt = Inl e \<and> isRetryable_spa e \<and> ms \<noteq> 0 \<longrightarrow>
            take 2 (fst (analyze_loop provS jp contents attempt)) =
              [Invoke contents, Sleep ms]"
    using analyze_loop_retry [of attempt provS jp contents e] a dse by simp
  have c4: "spa_try provS jp contents attempt = Inl e' \<and> isRetryable_spa e' \<longrightarrow>
            take 2 (fst (analyze_loop provS jp contents attempt)) =
              [Invoke contents, Sleep ([2000, 5000, 15000, 35000] ! attempt)]"
    using analyze_loop_retry [of attempt provS jp contents e'] a dse' by simp
  show ?thesis
    using c1 c2 c3 c4 by blast
qed

lemma fraction_not_of_form:
  "\<forall>ds u. ''1.5s'' = ds @ u \<and> ds \<noteq> [] \<and> list_all is_digit ds \<longrightarrow> u \<noteq> ''s'' \<and> u \<noteq> ''ms''"
proof (intro allI impI)
  fix ds u :: string
  assume h: "''1.5s'' = ds @ u \<and> ds \<noteq> [] \<and> list_all is_digit ds"
  then have "rev ''1.5s'' = rev (ds @ u)"
    by simp
  then have r: "''s5.1'' = rev u @ rev ds"
    by simp
  have d: "list_all is_digit (rev ds)"
    using h by simp
  have "u \<noteq> ''s''"
  proof
    assume "u = ''s''"
    then have "rev ds = ''5.1''"
      using r by simp
    then show False
      using d by (simp add: is_digit_def)
  qed
  moreover have "u \<noteq> ''ms''"
  proof
    assume "u = ''ms''"
    then show False
      using r by simp
  qed
  ultimately show "u \<noteq> ''s'' \<and> u \<noteq> ''ms''" by simp
qed


text \<open>The theorem at a delay of \<^verbatim>\<open>5s\<close>, at an error without details and at an error
  whose first retry-info detail says \<^verbatim>\<open>1.5s\<close>; and the waits of the route against a
  provider that always fails with 429 and gives no delay.\<close>

theorem retry_delay_selection_witness:
  "take 2 (fst (attemptGeneration always_429_retry_5s JSON_parse_sample (Some ''hello'') None 1)) =
     [Invoke [TextPart ''hello''], Sleep 5000] \<and>
   take 2 (fst (attemptGeneration always_429 JSON_parse_sample (Some ''hello'') None 1)) =
     [Invoke [TextPart ''hello''], Sleep 4000] \<and>
   take 2 (fst (attemptGeneration always_429_retry_fraction JSON_parse_sample (Some ''hello'') None 1)) =
     [Invoke [TextPart ''hello''], Sleep 4000] \<and>
   take 2 (fst (analyze_loop always_429_retry_5s JSON_parse_sample [TextPart ''hello''] 2)) =
     [Invoke [TextPart ''hello''], Sleep 5000] \<and>
   take 2 (fst (analyze_loop always_429 JSON_parse_sample [TextPart ''hello''] 2)) =
     [Invoke [TextPart ''hello''], Sleep 15000] \<and>
   take 2 (fst (analyze_loop always_429_retry_fraction JSON_parse_sample [TextPart ''hello''] 2)) =
     [Invoke [TextPart ''hello''], Sleep 15000]"
proof -
  have first: "details error_429_retry_5s = Some ([] @ retry_info_5s # [])"
    by (simp add: error_429_retry_5s_def)
  have pre: "list_all (\<lambda>d. \<not> (opt_includes (at_type d) ''RetryInfo'' \<and> truthy (retryDelay d))) []"
    by simp
  have ty: "opt_includes (at_type retry_info_5s) ''RetryInfo''"
    by (simp add: retry_info_5s_def js_includes_def sublist_code(3))
  have rd: "retryDelay retry_info_5s = Some (''5'' @ ''s'')"
    by (simp add: retry_info_5s_def)
  have ds: "''5'' \<noteq> []" "list_all is_digit ''5''"
    by (simp_all add: is_digit_def)
  have u: "''s'' = ''s'' \<or> ''s'' = ''ms''"
    by simp
  have ms: "5000 = (if ''s'' = ''s'' then parseInt ''5'' * 1000 else parseInt ''5'')"
    by (simp add: parseInt_def)
  have exact: "parseInt ''5'' * 1000 < 2 ^ 53"
    by (simp add: parseInt_def)
  have none: "details error_429 = None \<or>
           (\<exists>dl. details error_429 = Some dl \<and>
              list_all (\<lambda>d. \<not> (opt_includes (at_type d) ''RetryInfo'' \<and> truthy (retryDelay d))) dl) \<or>
           (\<exists>pre' ri' post' rd'.
              details error_429 = Some (pre' @ ri' # post') \<and>
              list_all (\<lambda>d. \<not> (opt_includes (at_type d) ''RetryInfo'' \<and> truthy (retryDelay d))) pre' \<and>
              opt_includes (at_type ri') ''RetryInfo'' \<and>
              retryDelay ri' = Some rd' \<and> rd' \<noteq> [] \<and>
              (\<forall>ds' u'. rd' = ds' @ u' \<and> ds' \<noteq> [] \<and> list_all is_digit ds' \<longrightarrow>
                        u' \<noteq> ''s'' \<and> u' \<noteq> ''ms''))"
    by (simp add: error_429_def)
  have third: "details error_429_retry_fraction = Some ([] @ retry_info_fraction # [retry_info_7s]) \<and>
              list_all (\<lambda>d. \<not> (opt_includes (at_type d) ''RetryInfo'' \<and> truthy (retryDelay d))) [] \<and>
              opt_includes (at_type retry_info_fraction) ''RetryInfo'' \<and>
              retryDelay retry_info_fraction = Some ''1.5s'' \<and> ''1.5s'' \<noteq> [] \<and>
              (\<forall>ds' u'. ''1.5s'' = ds' @ u' \<and> ds' \<noteq> [] \<and> list_all is_digit ds' \<longrightarrow>
                        u' \<noteq> ''s'' \<and> u' \<noteq> ''ms'')"
    using fraction_not_of_form
    by (simp add: error_429_retry_fraction_def retry_info_fraction_def js_includes_def
        sublist_code(3))
  have none': "details error_429_retry_fraction = None \<or>
           (\<exists>dl. details error_429_retry_fraction = Some dl \<and>
              list_all (\<lambda>d. \<not> (opt_includes (at_type d) ''RetryInfo'' \<and> truthy (retryDelay d))) dl) \<or>
           (\<exists>pre' ri' post' rd'.
              details error_429_retry_fraction = Some (pre' @ ri' # post') \<and>
              list_all (\<lambda>d. \<not> (opt_includes (at_type d) ''RetryInfo'' \<and> truthy (retryDelay d))) pre' \<and>
              opt_includes (at_type ri') ''RetryInfo'' \<and>
              retryDelay ri' = Some rd' \<and> rd' \<noteq> [] \<and>
              (\<forall>ds' u'. rd' = ds' @ u' \<and> ds' \<noteq> [] \<and> list_all is_digit ds' \<longrightarrow>
                        u' \<noteq> ''s'' \<and> u' \<noteq> ''ms''))"
    using third by blast
  have a: "2 < maxRetries - 1" and r: "(1::nat) < 3"
    by (simp_all add: maxRetries_def)
  have g: "route_try always_429_retry_5s JSON_parse_sample
             (buildParts (Some ''hello'') None (truthy None)) 1 = Inl error_429_retry_5s"
          "route_try always_429 JSON_parse_sample
             (buildParts (Some ''hello'') None (truthy None)) 1 = Inl error_429"
          "route_try always_429_retry_fraction JSON_parse_sample
             (buildParts (Some ''hello'') None (truthy None)) 1 = Inl error_429_retry_fraction"
          "spa_try always_429_retry_5s JSON_parse_sample [TextPart ''hello''] 2 =
             Inl error_429_retry_5s"
          "spa_try always_429 JSON_parse_sample [TextPart ''hello''] 2 = Inl error_429"
          "spa_try always_429_retry_fraction JSON_parse_sample [TextPart ''hello''] 2 =
             Inl error_429_retry_fraction"
    by (simp_all add: route_try_def spa_try_def always_429_def always_429_retry_5s_def
        always_429_retry_fraction_def)
  have c: "isRetryable_route error_429_retry_5s" "isRetryable_route error_429"
          "isRetryable_route error_429_retry_fraction"
          "isRetryable_spa error_429_retry_5s" "isRetryable_spa error_429"
          "isRetryable_spa error_429_retry_fraction"
    by (simp_all add: isRetryable_route_def isQuotaError_def isRetryable_spa_def
        error_429_def error_429_retry_5s_def error_429_retry_fraction_def)
  have p: "buildParts (Some ''hello'') None (truthy None) = [TextPart ''hello'']"
    by (simp add: buildParts_def)
  have w1: "take 2 (fst (attemptGeneration always_429_retry_5s JSON_parse_sample (Some ''hello'') None 1)) =
              [Invoke [TextPart ''hello''], Sleep 5000] \<and>
            take 2 (fst (analyze_loop always_429_retry_5s JSON_parse_sample [TextPart ''hello''] 2)) =
              [Invoke [TextPart ''hello''], Sleep 5000]"
    using retry_delay_selection
            [where provR = always_429_retry_5s and provS = always_429_retry_5s
               and jp = JSON_parse_sample and contents = "[TextPart ''hello'']"
               and ?text = "Some ''hello''" and img = None,
             OF first pre ty rd ds u ms exact none a r]
          g(1,4) c(1,4)
    unfolding p by simp
  have w2: "take 2 (fst (attemptGeneration always_429 JSON_parse_sample (Some ''hello'') None 1)) =
              [Invoke [TextPart ''hello''], Sleep 4000] \<and>
            take 2 (fst (analyze_loop always_429 JSON_parse_sample [TextPart ''hello''] 2)) =
              [Invoke [TextPart ''hello''], Sleep 15000]"
    using retry_delay_selection
            [where provR = always_429 and provS = always_429
               and jp = JSON_parse_sample and contents = "[TextPart ''hello'']"
               and ?text = "Some ''hello''" and img = None,
             OF first pre ty rd ds u ms exact none a r]
          g(2,5) c(2,5)
    unfolding p by simp
  have w3: "take 2 (fst (attemptGeneration always_429_retry_fraction JSON_parse_sample (Some ''hello'') None 1)) =
              [Invoke [TextPart ''hello''], Sleep 4000] \<and>
            take 2 (fst (analyze_loop always_429_retry_fraction JSON_parse_sample [TextPart ''hello''] 2)) =
              [Invoke [TextPart ''hello''], Sleep 15000]"
    using retry_delay_selection
            [where provR = always_429_retry_fraction and provS = always_429_retry_fraction
               and jp = JSON_parse_sample and contents = "[TextPart ''hello'']"
               and ?text = "Some ''hello''" and img = None,
             OF first pre ty rd ds u ms exact none' a r]
          g(3,6) c(3,6)
    unfolding p by simp
  show ?thesis
    using w1 w2 w3 by blast
qed

theorem retry_delay_selection_counterexample:
  "sleeps (fst (attemptGeneration always_429 JSON_parse_sample (Some ''hello'') None 0)) =
     [2000, 4000, 8000]"
  by (simp add: attemptGeneration.simps route_try_def always_429_def error_429_def
      isRetryable_route_def isQuotaError_def buildParts_def retry_delay_route_def
      requested_delay_def find_retryInfo_def split_beta)

subsection \<open>Responses that are not JSON\<close>

lemma spa_try_text:
  "prov i c = Inr (Some t) \<Longrightarrow> t \<noteq> [] \<Longrightarrow>
   spa_try prov jp c i =
     (case jp t of Inr parsed \<Rightarrow> Inr parsed | Inl m \<Rightarrow> Inl (js_Error msg_json_parse))"
  by (simp add: spa_try_def)

lemma spa_try_no_text:
  "prov i c = Inr None \<or> prov i c = Inr (Some []) \<Longrightarrow>
   spa_try prov jp c i =
     (case jp ''{}'' of Inr parsed \<Rightarrow> Inr parsed | Inl m \<Rightarrow> Inl (js_Error msg_json_parse))"
  by (auto simp: spa_try_def)

lemma route_try_text:
  "prov i ps = Inr t \<Longrightarrow>
   route_try prov jp ps i = (case jp t of Inr v \<Rightarrow> Inr v | Inl m \<Rightarrow> Inl (js_Error m))"
  by (simp add: route_try_def split: sum.splits)

text \<open>
  Claim C4, as the code has it. Let \<open>t\<close> be a response text that \<^verbatim>\<open>JSON.parse\<close>
  rejects. In the browser service, when \<open>t\<close> is not empty the attempt throws the error
  with the fixed JSON-parse message; in the route the attempt throws the
  \<^verbatim>\<open>SyntaxError\<close> of \<^verbatim>\<open>JSON.parse\<close>, also for the empty text. In the browser service
  an absent or empty response text is replaced by \<^verbatim>\<open>{}\<close> before parsing, and the
  attempt returns what that parses to.
\<close>

theorem malformed_response_raises:
  assumes "jp t = Inl m"
  shows "(t \<noteq> [] \<and> provS i c = Inr (Some t) \<longrightarrow>
            spa_try provS jp c i = Inl (js_Error msg_json_parse)) \<and>
         (provR i ps = Inr t \<longrightarrow> route_try provR jp ps i = Inl (js_Error m)) \<and>
         ((provS i c = Inr None \<or> provS i c = Inr (Some [])) \<and> jp ''{}'' = Inr v \<longrightarrow>
            spa_try provS jp c i = Inr v)"
  using assms spa_try_text [of provS i c t jp] route_try_text [of provR i ps t jp]
    spa_try_no_text [of provS i c jp]
  by auto

text \<open>The theorem at the text \<^verbatim>\<open>not json\<close> and at an absent text; and the whole call
  of the browser service at an absent text, which returns the empty object.\<close>

theorem malformed_response_raises_witness:
  "spa_try answers_not_json JSON_parse_sample [TextPart ''hello''] 0 =
     Inl (js_Error msg_json_parse) \<and>
   route_try answers_not_json_route JSON_parse_sample [TextPart ''hello''] 0 =
     Inl (js_Error ''Unexpected token o in JSON at position 1'') \<and>
   spa_try answers_nothing JSON_parse_sample [TextPart ''hello''] 0 = Inr (JObj [])"
proof -
  have bad: "JSON_parse_sample ''not json'' = Inl ''Unexpected token o in JSON at position 1''"
    by (simp add: JSON_parse_sample_def)
  have s: "''not json'' \<noteq> [] \<and>
           answers_not_json 0 [TextPart ''hello''] = Inr (Some ''not json'')"
    by (simp add: answers_not_json_def)
  have r: "answers_not_json_route 0 [TextPart ''hello''] = Inr ''not json''"
    by (simp add: answers_not_json_route_def)
  have n: "(answers_nothing 0 [TextPart ''hello''] = Inr None \<or>
            answers_nothing 0 [TextPart ''hello''] = Inr (Some [])) \<and>
           JSON_parse_sample ''{}'' = Inr (JObj [])"
    by (simp add: answers_nothing_def JSON_parse_sample_def)
  show ?thesis
    using malformed_response_raises
            [where jp = JSON_parse_sample and t = "''not json''" and provS = answers_not_json
               and provR = answers_not_json_route and i = 0 and c = "[TextPart ''hello'']"
               and ps = "[TextPart ''hello'']" and v = "JObj []", OF bad]
          malformed_response_raises
            [where jp = JSON_parse_sample and t = "''not json''" and provS = answers_nothing
               and provR = answers_not_json_route and i = 0 and c = "[TextPart ''hello'']"
               and ps = "[TextPart ''hello'']" and v = "JObj []", OF bad]
          s r n
    by blast
qed

theorem malformed_response_counterexample:
  "analyzeCreative (Some ''secret-key'') answers_nothing JSON_parse_sample ''hello'' None =
     ([Invoke [TextPart ''hello'']], Inr (JObj []))"
  by (simp add: analyzeCreative_def analyze_loop.simps spa_try_def answers_nothing_def
      JSON_parse_sample_def maxRetries_def)

subsection \<open>The text-only fallback\<close>

lemma attemptGeneration_cases:
  obtains
    (success) v where
      "route_try prov jp (buildParts text img (truthy img)) r = Inr v"
      "attemptGeneration prov jp text img r = ([Invoke (buildParts text img (truthy img))], Inr v)"
  | (retry) e where
      "route_try prov jp (buildParts text img (truthy img)) r = Inl e"
      "r < 3" "isRetryable_route e"
      "attemptGeneration prov jp text img r =
         (Invoke (buildParts text img (truthy img)) # Sleep (retry_delay_route e r) #
            fst (attemptGeneration prov jp text img (r + 1)),
          snd (attemptGeneration prov jp text img (r + 1)))"
  | (fallback) e where
      "route_try prov jp (buildParts text img (truthy img)) r = Inl e"
      "\<not> (r < 3 \<and> isRetryable_route e)" "truthy img" "truthy text" "1 \<le> r"
      "attemptGeneration prov jp text img r =
         ([Invoke (buildParts text img (truthy img)), Invoke (buildParts text img False)],
          case route_try prov jp (buildParts text img False) (r + 1) of
            Inr v \<Rightarrow> Inr (with_warning v)
          | Inl fallbackError \<Rightarrow> Inl fallbackError)"
  | (fail) e where
      "route_try prov jp (buildParts text img (truthy img)) r = Inl e"
      "\<not> (r < 3 \<and> isRetryable_route e)" "\<not> (truthy img \<and> truthy text \<and> 1 \<le> r)"
      "attemptGeneration prov jp text img r =
         ([Invoke (buildParts text img (truthy img))], Inl e)"
proof (cases "route_try prov jp (buildParts text img (truthy img)) r")
  case (Inr v)
  then show ?thesis
    using attemptGeneration_success success by blast
next
  case (Inl e)
  show ?thesis
  proof (cases "r < 3 \<and> isRetryable_route e")
    case True
    then show ?thesis
      using attemptGeneration_retry [OF Inl] retry Inl by blast
  next
    case False
    show ?thesis
    proof (cases "truthy img \<and> truthy text \<and> 1 \<le> r")
      case True
      then show ?thesis
        using attemptGeneration_fallback [OF Inl False] fallback Inl False by blast
    next
      case no: False
      then show ?thesis
        using attemptGeneration_fail [OF Inl False] fail Inl False by blast
    qed
  qed
qed

lemma attemptGeneration_fallback_result:
  assumes ne: "buildParts text img (truthy img) \<noteq> buildParts text img False"
  shows "attemptGeneration prov jp text img r = (tr, res) \<Longrightarrow>
         Invoke (buildParts text img False) \<in> set tr \<Longrightarrow>
         res = (case route_try prov jp (buildParts text img False) (r + invocations tr - 1) of
                  Inr v \<Rightarrow> Inr (with_warning v)
                | Inl f \<Rightarrow> Inl f)"
proof (induction r arbitrary: tr res rule: measure_induct_rule [where f = "\<lambda>r. 3 - r"])
  case (less r)
  show ?case
  proof (cases rule: attemptGeneration_cases [of prov jp "text" img r])
    case (success v)
    then show ?thesis
      using less.prems ne by auto
  next
    case (retry e)
    obtain tr' where tr': "attemptGeneration prov jp text img (r + 1) = (tr', res)"
      and tr: "tr = Invoke (buildParts text img (truthy img)) # Sleep (retry_delay_route e r) # tr'"
      using retry(4) less.prems(1) by (cases "attemptGeneration prov jp text img (r + 1)") auto
    have mem: "Invoke (buildParts text img False) \<in> set tr'"
      using less.prems(2) tr ne by auto
    have "res = (case route_try prov jp (buildParts text img False) (r + 1 + invocations tr' - 1) of
                  Inr v \<Rightarrow> Inr (with_warning v)
                | Inl f \<Rightarrow> Inl f)"
      using less.IH [of "r + 1" tr' res] retry(2) tr' mem by simp
    moreover have "r + invocations tr - 1 = r + 1 + invocations tr' - 1"
      using tr by (simp add: invocations_def)
    ultimately show ?thesis by simp
  next
    case (fallback e)
    then show ?thesis
      using less.prems by (auto simp: invocations_def)
  next
    case (fail e)
    then show ?thesis
      using less.prems ne by auto
  qed
qed

lemma attemptGeneration_fallback_once:
  assumes ne: "buildParts text img (truthy img) \<noteq> buildParts text img False"
  shows "count_list (fst (attemptGeneration prov jp text img r))
           (Invoke (buildParts text img False)) \<le> 1"
proof (induction r rule: measure_induct_rule [where f = "\<lambda>r. 3 - r"])
  case (less r)
  show ?case
  proof (cases rule: attemptGeneration_cases [of prov jp "text" img r])
    case (success v)
    then show ?thesis by simp
  next
    case (retry e)
    then show ?thesis
      using less.IH [of "r + 1"] ne by simp
  next
    case (fallback e)
    then show ?thesis
      using ne by simp
  next
    case (fail e)
    then show ?thesis by simp
  qed
qed

lemma buildParts_both:
  "t \<noteq> [] \<Longrightarrow> i \<noteq> [] \<Longrightarrow>
   buildParts (Some t) (Some i) useImage =
     (if useImage then [TextPart t, InlineData ''image/png'' (strip_data_url i)] else [TextPart t])"
  by (simp add: buildParts_def)

lemma with_warning_get: "json_get (with_warning v) ''warning'' = Some (JStr msg_warning)"
  by (simp add: with_warning_def update_conv')

text \<open>
  Claim C6, as the code has it. For a request with text and image, when the call
  made the text-only invocation and ends with an error, that error is the one the
  text-only invocation (the last invocation of the call) failed with: the handler of
  the fallback rethrows \<^verbatim>\<open>fallbackError\<close>.
\<close>

theorem fallback_error_raised:
  assumes "t \<noteq> []" and "i \<noteq> []"
      and "attemptGeneration prov jp (Some t) (Some i) 0 = (tr, Inl x)"
      and "Invoke [TextPart t] \<in> set tr"
  shows "route_try prov jp [TextPart t] (invocations tr - 1) = Inl x"
proof -
  have ne: "buildParts (Some t) (Some i) (truthy (Some i)) \<noteq> buildParts (Some t) (Some i) False"
    using assms(1,2) by (simp add: buildParts_both)
  have "Inl x = (case route_try prov jp (buildParts (Some t) (Some i) False) (0 + invocations tr - 1) of
                  Inr v \<Rightarrow> Inr (with_warning v)
                | Inl f \<Rightarrow> Inl f)"
    using attemptGeneration_fallback_result [OF ne assms(3)] assms(1,2,4)
    by (simp add: buildParts_both)
  then show ?thesis
    using assms(1,2) by (simp add: buildParts_both split: sum.splits)
qed

text \<open>
  Claim C7, as the code has it. For a request with text and image, when an attempt
  after the first fails and is not retried (the error is not retryable, or three
  retries were made), the controller invokes once more with the text part alone. A
  call that made the text-only invocation and succeeds returns a result whose
  \<^verbatim>\<open>warning\<close> is the degraded-mode message. The text-only invocation occurs at most once
  in a call.
\<close>

theorem text_only_fallback:
  assumes "t \<noteq> []" and "i \<noteq> []"
  shows "(1 \<le> r \<and>
          route_try prov jp [TextPart t, InlineData ''image/png'' (strip_data_url i)] r = Inl e \<and>
          \<not> (r < 3 \<and> isRetryable_route e) \<longrightarrow>
            fst (attemptGeneration prov jp (Some t) (Some i) r) =
              [Invoke [TextPart t, InlineData ''image/png'' (strip_data_url i)],
               Invoke [TextPart t]]) \<and>
         (attemptGeneration prov jp (Some t) (Some i) 0 = (tr, Inr v) \<and>
          Invoke [TextPart t] \<in> set tr \<longrightarrow>
            json_get v ''warning'' = Some (JStr msg_warning)) \<and>
         count_list (fst (attemptGeneration prov jp (Some t) (Some i) 0)) (Invoke [TextPart t]) \<le> 1"
proof -
  have ne: "buildParts (Some t) (Some i) (truthy (Some i)) \<noteq> buildParts (Some t) (Some i) False"
    using assms by (simp add: buildParts_both)
  have c1: "fst (attemptGeneration prov jp (Some t) (Some i) r) =
              [Invoke [TextPart t, InlineData ''image/png'' (strip_data_url i)],
               Invoke [TextPart t]]"
    if "1 \<le> r"
      and "route_try prov jp [TextPart t, InlineData ''image/png'' (strip_data_url i)] r = Inl e"
      and "\<not> (r < 3 \<and> isRetryable_route e)"
    using attemptGeneration_fallback [of prov jp "Some t" "Some i" r e] that assms
    by (simp add: buildParts_both)
  have c2: "json_get v ''warning'' = Some (JStr msg_warning)"
    if "attemptGeneration prov jp (Some t) (Some i) 0 = (tr, Inr v)"
      and "Invoke [TextPart t] \<in> set tr"
  proof -
    have "Inr v = (case route_try prov jp (buildParts (Some t) (Some i) False) (0 + invocations tr - 1) of
                  Inr v \<Rightarrow> Inr (with_warning v)
                | Inl f \<Rightarrow> Inl f)"
      using attemptGeneration_fallback_result [OF ne that(1)] that(2) assms
      by (simp add: buildParts_both)
    then obtain w where "v = with_warning w"
      by (auto split: sum.splits)
    then show ?thesis
      by (simp add: with_warning_get)
  qed
  have c3: "count_list (fst (attemptGeneration prov jp (Some t) (Some i) 0)) (Invoke [TextPart t]) \<le> 1"
    using attemptGeneration_fallback_once [OF ne, of prov jp 0] assms
    by (simp add: buildParts_both)
  show ?thesis
    using c1 c2 c3 by blast
qed


lemma sample_image: "strip_data_url ''data:image/png;base64,AAAA'' = ''AAAA''"
  by (simp add: strip_data_url_def)

text \<open>Claim C6 at a provider that fails the image attempts with 429 and 400 and the
  text-only call with 403: the caller gets the 403, not the 400 of the image path.\<close>

theorem fallback_error_raised_witness:
  "snd (attemptGeneration fails_429_400_403 JSON_parse_sample
          (Some ''hello'') (Some ''data:image/png;base64,AAAA'') 0) = Inl error_403 \<and>
   route_try fails_429_400_403 JSON_parse_sample [TextPart ''hello''] 2 = Inl error_403"
proof -
  have ne: "''hello'' \<noteq> []" "''data:image/png;base64,AAAA'' \<noteq> []"
    by simp_all
  have run: "attemptGeneration fails_429_400_403 JSON_parse_sample
               (Some ''hello'') (Some ''data:image/png;base64,AAAA'') 0 =
             ([Invoke [TextPart ''hello'', InlineData ''image/png'' ''AAAA''], Sleep 2000,
               Invoke [TextPart ''hello'', InlineData ''image/png'' ''AAAA''],
               Invoke [TextPart ''hello'']], Inl error_403)"
    by (simp add: attemptGeneration.simps route_try_def fails_429_400_403_def error_429_def
        error_400_def isRetryable_route_def isQuotaError_def buildParts_def sample_image
        retry_delay_route_def requested_delay_def find_retryInfo_def js_includes_def
        sublist_code(3))
  have mem: "Invoke [TextPart ''hello''] \<in>
             set [Invoke [TextPart ''hello'', InlineData ''image/png'' ''AAAA''], Sleep 2000,
                  Invoke [TextPart ''hello'', InlineData ''image/png'' ''AAAA''],
                  Invoke [TextPart ''hello'']]"
    by simp
  show ?thesis
    using fallback_error_raised [OF ne run mem] run
    by (simp add: invocations_def numeral_2_eq_2)
qed

theorem fallback_error_raised_counterexample:
  "route_try fails_429_400_403 JSON_parse_sample
     [TextPart ''hello'', InlineData ''image/png'' ''AAAA''] 1 = Inl error_400 \<and>
   attemptGeneration fails_429_400_403 JSON_parse_sample
     (Some ''hello'') (Some ''data:image/png;base64,AAAA'') 0 =
     ([Invoke [TextPart ''hello'', InlineData ''image/png'' ''AAAA''], Sleep 2000,
       Invoke [TextPart ''hello'', InlineData ''image/png'' ''AAAA''],
       Invoke [TextPart ''hello'']], Inl error_403) \<and>
   error_403 \<noteq> error_400"
  by (simp add: attemptGeneration.simps route_try_def fails_429_400_403_def error_429_def
      error_400_def error_403_def isRetryable_route_def isQuotaError_def buildParts_def
      sample_image retry_delay_route_def requested_delay_def find_retryInfo_def
      js_includes_def sublist_code(3))

text \<open>Claim C7 at a provider that rejects the image; and a call whose first two image
  attempts fail with 429 and whose third succeeds: a second image-path failure is
  retried with the image, no text-only invocation is made and no warning is set.\<close>

theorem text_only_fallback_witness:
  "fst (attemptGeneration rejects_image JSON_parse_sample
          (Some ''hello'') (Some ''data:image/png;base64,AAAA'') 1) =
     [Invoke [TextPart ''hello'', InlineData ''image/png'' ''AAAA''], Invoke [TextPart ''hello'']] \<and>
   snd (attemptGeneration rejects_image JSON_parse_sample
          (Some ''hello'') (Some ''data:image/png;base64,AAAA'') 0) =
     Inr (JObj [(''warning'', JStr msg_warning)]) \<and>
   json_get (JObj [(''warning'', JStr msg_warning)]) ''warning'' = Some (JStr msg_warning) \<and>
   count_list (fst (attemptGeneration rejects_image JSON_parse_sample
          (Some ''hello'') (Some ''data:image/png;base64,AAAA'') 0)) (Invoke [TextPart ''hello'']) \<le> 1"
proof -
  have ne: "''hello'' \<noteq> []" "''data:image/png;base64,AAAA'' \<noteq> []"
    by simp_all
  have nr: "\<not> isRetryable_route error_400"
    by (simp add: error_400_def isRetryable_route_def isQuotaError_def js_includes_def
        sublist_code(3))
  have step: "1 \<le> (1::nat) \<and>
          route_try rejects_image JSON_parse_sample
            [TextPart ''hello'', InlineData ''image/png'' (strip_data_url ''data:image/png;base64,AAAA'')] 1
            = Inl error_400 \<and>
          \<not> (1 < (3::nat) \<and> isRetryable_route error_400)"
    using nr by (simp add: route_try_def rejects_image_def sample_image)
  have run: "attemptGeneration rejects_image JSON_parse_sample
               (Some ''hello'') (Some ''data:image/png;base64,AAAA'') 0 =
             ([Invoke [TextPart ''hello'', InlineData ''image/png'' ''AAAA''], Sleep 2000,
               Invoke [TextPart ''hello'', InlineData ''image/png'' ''AAAA''],
               Invoke [TextPart ''hello'']], Inr (JObj [(''warning'', JStr msg_warning)])) \<and>
             Invoke [TextPart ''hello''] \<in>
             set [Invoke [TextPart ''hello'', InlineData ''image/png'' ''AAAA''], Sleep 2000,
                  Invoke [TextPart ''hello'', InlineData ''image/png'' ''AAAA''],
                  Invoke [TextPart ''hello'']]"
    using nr
    by (simp add: attemptGeneration.simps route_try_def rejects_image_def error_429_def
        isRetryable_route_def isQuotaError_def buildParts_def sample_image
        retry_delay_route_def requested_delay_def find_retryInfo_def
        JSON_parse_sample_def with_warning_def)
  show ?thesis
    using text_only_fallback
            [where prov = rejects_image and jp = JSON_parse_sample and r = 1 and e = error_400
               and tr = "[Invoke [TextPart ''hello'', InlineData ''image/png'' ''AAAA''], Sleep 2000,
                         Invoke [TextPart ''hello'', InlineData ''image/png'' ''AAAA''],
                         Invoke [TextPart ''hello'']]"
               and v = "JObj [(''warning'', JStr msg_warning)]", OF ne]
          step run
    by (simp add: sample_image)
qed

theorem text_only_fallback_counterexample:
  "attemptGeneration recovers_at_third JSON_parse_sample
     (Some ''hello'') (Some ''data:image/png;base64,AAAA'') 0 =
     ([Invoke [TextPart ''hello'', InlineData ''image/png'' ''AAAA''], Sleep 2000,
       Invoke [TextPart ''hello'', InlineData ''image/png'' ''AAAA''], Sleep 4000,
       Invoke [TextPart ''hello'', InlineData ''image/png'' ''AAAA'']], Inr (JObj [])) \<and>
   json_get (JObj []) ''warning'' = None"
  by (simp add: attemptGeneration.simps route_try_def recovers_at_third_def error_429_def
      isRetryable_route_def isQuotaError_def buildParts_def sample_image
      retry_delay_route_def requested_delay_def find_retryInfo_def JSON_parse_sample_def)

subsection \<open>A response that is not JSON, in the retry controller\<close>

lemma json_parse_error_not_retryable: "\<not> isRetryable_spa (js_Error msg_json_parse)"
  by (simp add: isRetryable_spa_def js_Error_def msg_json_parse_def js_includes_def
      sublist_code(3))

lemma attemptGeneration_sleeps_iff:
  "route_try prov jp (buildParts text img (truthy img)) r = Inl f \<Longrightarrow>
   (sleeps (fst (attemptGeneration prov jp text img r)) \<noteq> []) = (r < 3 \<and> isRetryable_route f)"
  by (cases rule: attemptGeneration_cases [of prov jp "text" img r]) auto

text \<open>
  Claim C8, as the code has it. A response text that fails parsing reaches the same
  handler as a provider error and is classified by the same test. In the browser
  service the rethrown parse error is never retryable: the call ends at this attempt
  with the final error. In the route the \<^verbatim>\<open>SyntaxError\<close> is retried exactly when
  retries remain and its message contains \<^verbatim>\<open>429\<close>, \<^verbatim>\<open>RESOURCE_EXHAUSTED\<close>,
  \<^verbatim>\<open>timeout\<close> or \<^verbatim>\<open>network\<close>.
\<close>

theorem malformed_json_same_handler:
  assumes "jp t = Inl m" and "t \<noteq> []" and "attempt < maxRetries"
  shows "(provS attempt contents = Inr (Some t) \<longrightarrow>
            spa_try provS jp contents attempt = Inl (js_Error msg_json_parse) \<and>
            analyze_loop provS jp contents attempt =
              ([Invoke contents],
               Inl (js_Error (userMessage (js_Error msg_json_parse) attempt)))) \<and>
         (provR r (buildParts text img (truthy img)) = Inr t \<longrightarrow>
            route_try provR jp (buildParts text img (truthy img)) r = Inl (js_Error m) \<and>
            (sleeps (fst (attemptGeneration provR jp text img r)) \<noteq> []) =
              (r < 3 \<and>
               (js_includes m ''429'' \<or> js_includes m ''RESOURCE_EXHAUSTED'' \<or>
                js_includes m ''timeout'' \<or> js_includes m ''network'')))"
proof -
  have spa: "spa_try provS jp contents attempt = Inl (js_Error msg_json_parse) \<and>
            analyze_loop provS jp contents attempt =
              ([Invoke contents],
               Inl (js_Error (userMessage (js_Error msg_json_parse) attempt)))"
    if "provS attempt contents = Inr (Some t)"
  proof -
    have e: "spa_try provS jp contents attempt = Inl (js_Error msg_json_parse)"
      using spa_try_text [of provS attempt contents t jp] that assms(1,2) by simp
    show ?thesis
      using e analyze_loop_final [OF assms(3) e] json_parse_error_not_retryable by simp
  qed
  have route: "route_try provR jp (buildParts text img (truthy img)) r = Inl (js_Error m) \<and>
            (sleeps (fst (attemptGeneration provR jp text img r)) \<noteq> []) =
              (r < 3 \<and>
               (js_includes m ''429'' \<or> js_includes m ''RESOURCE_EXHAUSTED'' \<or>
                js_includes m ''timeout'' \<or> js_includes m ''network''))"
    if "provR r (buildParts text img (truthy img)) = Inr t"
  proof -
    have e: "route_try provR jp (buildParts text img (truthy img)) r = Inl (js_Error m)"
      using route_try_text [of provR r "buildParts text img (truthy img)" t jp] that assms(1)
      by simp
    have "isRetryable_route (js_Error m) =
            (js_includes m ''429'' \<or> js_includes m ''RESOURCE_EXHAUSTED'' \<or>
             js_includes m ''timeout'' \<or> js_includes m ''network'')"
      by (auto simp: isRetryable_route_def isQuotaError_def js_Error_def)
    then show ?thesis
      using e attemptGeneration_sleeps_iff [OF e] by simp
  qed
  show ?thesis
    using spa route by blast
qed

text \<open>The theorem at the response \<^verbatim>\<open>not json\<close>; and the whole call of the browser
  service there: one invocation, no wait, the final error.\<close>

theorem malformed_json_same_handler_witness:
  "analyze_loop answers_not_json JSON_parse_sample [TextPart ''hello''] 0 =
     ([Invoke [TextPart ''hello'']], Inl (js_Error (userMessage (js_Error msg_json_parse) 0))) \<and>
   sleeps (fst (attemptGeneration answers_not_json_route JSON_parse_sample (Some ''hello'') None 0))
     = []"
proof -
  have bad: "JSON_parse_sample ''not json'' = Inl ''Unexpected token o in JSON at position 1''"
    by (simp add: JSON_parse_sample_def)
  have ne: "''not json'' \<noteq> []" and a: "0 < maxRetries"
    by (simp_all add: maxRetries_def)
  have s: "answers_not_json 0 [TextPart ''hello''] = Inr (Some ''not json'')"
    by (simp add: answers_not_json_def)
  have r: "answers_not_json_route 0 (buildParts (Some ''hello'') None (truthy None)) = Inr ''not json''"
    by (simp add: answers_not_json_route_def)
  have incl: "\<not> js_includes ''Unexpected token o in JSON at position 1'' ''429''"
             "\<not> js_includes ''Unexpected token o in JSON at position 1'' ''RESOURCE_EXHAUSTED''"
             "\<not> js_includes ''Unexpected token o in JSON at position 1'' ''timeout''"
             "\<not> js_includes ''Unexpected token o in JSON at position 1'' ''network''"
    by (simp_all add: js_includes_def sublist_code(3))
  show ?thesis
    using malformed_json_same_handler
            [where jp = JSON_parse_sample and t = "''not json''" and provS = answers_not_json
               and provR = answers_not_json_route and attempt = 0 and r = 0
               and contents = "[TextPart ''hello'']" and ?text = "Some ''hello''" and img = None,
             OF bad ne a]
          s r incl
    by simp
qed

theorem malformed_json_same_handler_counterexample:
  "analyzeCreative (Some ''secret-key'') answers_not_json JSON_parse_sample ''hello'' None =
     ([Invoke [TextPart ''hello'']], Inl (js_Error (userMessage (js_Error msg_json_parse) 0)))"
  using json_parse_error_not_retryable
  by (simp add: analyzeCreative_def analyze_loop.simps spa_try_def answers_not_json_def
      JSON_parse_sample_def maxRetries_def)


subsection \<open>No check of the parsed result\<close>

lemma analyze_loop_cases:
  obtains
    (exhausted)
      "\<not> attempt < maxRetries"
      "analyze_loop prov jp c attempt = ([], Inl (js_Error msg_unknown))"
  | (success) v where
      "attempt < maxRetries" "spa_try prov jp c attempt = Inr v"
      "analyze_loop prov jp c attempt = ([Invoke c], Inr v)"
  | (retry) e where
      "spa_try prov jp c attempt = Inl e" "isRetryable_spa e" "attempt < maxRetries - 1"
      "analyze_loop prov jp c attempt =
         (Invoke c # Sleep (retry_delay_spa e attempt) #
            fst (analyze_loop prov jp c (attempt + 1)),
          snd (analyze_loop prov jp c (attempt + 1)))"
  | (final) e where
      "attempt < maxRetries" "spa_try prov jp c attempt = Inl e"
      "analyze_loop prov jp c attempt = ([Invoke c], Inl (js_Error (userMessage e attempt)))"
proof (cases "attempt < maxRetries")
  case False
  then have "analyze_loop prov jp c attempt = ([], Inl (js_Error msg_unknown))"
    by (subst analyze_loop.simps) simp
  then show ?thesis
    using False exhausted by blast
next
  case True
  show ?thesis
  proof (cases "spa_try prov jp c attempt")
    case (Inr v)
    then show ?thesis
      using analyze_loop_success [OF True] True success by blast
  next
    case (Inl e)
    show ?thesis
    proof (cases "isRetryable_spa e \<and> attempt < maxRetries - 1")
      case retryable: True
      then show ?thesis
        using analyze_loop_retry [OF _ Inl] retry Inl by blast
    next
      case False
      then show ?thesis
        using analyze_loop_final [OF True Inl] True final Inl by blast
    qed
  qed
qed

lemma analyze_loop_success_result:
  "analyze_loop prov jp c attempt = (tr, Inr v) \<Longrightarrow>
   tr \<noteq> [] \<and> last tr = Invoke c \<and> spa_try prov jp c (attempt + invocations tr - 1) = Inr v"
proof (induction attempt arbitrary: tr
       rule: measure_induct_rule [where f = "\<lambda>a. maxRetries - a"])
  case (less attempt)
  show ?case
  proof (cases rule: analyze_loop_cases [of attempt prov jp c])
    case exhausted
    then show ?thesis
      using less.prems by simp
  next
    case (success w)
    then show ?thesis
      using less.prems by (auto simp: invocations_def)
  next
    case (retry e)
    obtain tr' where tr': "analyze_loop prov jp c (attempt + 1) = (tr', Inr v)"
      and tr: "tr = Invoke c # Sleep (retry_delay_spa e attempt) # tr'"
      using retry(4) less.prems by (cases "analyze_loop prov jp c (attempt + 1)") auto
    have ih: "tr' \<noteq> [] \<and> last tr' = Invoke c \<and>
              spa_try prov jp c (attempt + 1 + invocations tr' - 1) = Inr v"
      using less.IH [of "attempt + 1" tr'] retry(3) tr' by simp
    moreover have "attempt + invocations tr - 1 = attempt + 1 + invocations tr' - 1"
      using tr by (simp add: invocations_def)
    ultimately show ?thesis
      using tr by simp
  next
    case (final e)
    then show ?thesis
      using less.prems by simp
  qed
qed

lemma attemptGeneration_success_result:
  "attemptGeneration prov jp text img r = (tr, Inr v) \<Longrightarrow>
   \<exists>c w. tr \<noteq> [] \<and> last tr = Invoke c \<and>
         route_try prov jp c (r + invocations tr - 1) = Inr w \<and>
         (if truthy text \<and> truthy img \<and> c = buildParts text img False
          then v = with_warning w else v = w)"
proof (induction r arbitrary: tr rule: measure_induct_rule [where f = "\<lambda>r. 3 - r"])
  case (less r)
  have ne: "truthy img \<Longrightarrow> buildParts text img (truthy img) \<noteq> buildParts text img False"
    by (cases img) (auto simp: buildParts_def)
  show ?case
  proof (cases rule: attemptGeneration_cases [of prov jp "text" img r])
    case (success w)
    then show ?thesis
      using less.prems ne by (auto simp: invocations_def)
  next
    case (retry e)
    obtain tr' where tr': "attemptGeneration prov jp text img (r + 1) = (tr', Inr v)"
      and tr: "tr = Invoke (buildParts text img (truthy img)) # Sleep (retry_delay_route e r) # tr'"
      using retry(4) less.prems by (cases "attemptGeneration prov jp text img (r + 1)") auto
    obtain c w where ih: "tr' \<noteq> []" "last tr' = Invoke c"
        "route_try prov jp c (r + 1 + invocations tr' - 1) = Inr w"
        "if truthy text \<and> truthy img \<and> c = buildParts text img False
         then v = with_warning w else v = w"
    proof -
      have m: "3 - (r + 1) < 3 - r"
        using retry(2) by simp
      show ?thesis
        using less.IH [OF m tr'] that by blast
    qed
    have "r + invocations tr - 1 = r + 1 + invocations tr' - 1"
      using tr by (simp add: invocations_def)
    then have "tr \<noteq> [] \<and> last tr = Invoke c \<and>
         route_try prov jp c (r + invocations tr - 1) = Inr w \<and>
         (if truthy text \<and> truthy img \<and> c = buildParts text img False
          then v = with_warning w else v = w)"
      using ih tr by simp
    then show ?thesis by blast
  next
    case (fallback e)
    obtain w where w: "route_try prov jp (buildParts text img False) (r + 1) = Inr w"
        "v = with_warning w"
      using fallback(6) less.prems by (auto split: sum.splits)
    have "tr = [Invoke (buildParts text img (truthy img)), Invoke (buildParts text img False)]"
      using fallback(6) less.prems by simp
    then have "tr \<noteq> [] \<and> last tr = Invoke (buildParts text img False) \<and>
         route_try prov jp (buildParts text img False) (r + invocations tr - 1) = Inr w \<and>
         (if truthy text \<and> truthy img \<and> buildParts text img False = buildParts text img False
          then v = with_warning w else v = w)"
      using w fallback(3,4) by (simp add: invocations_def)
    then show ?thesis by blast
  next
    case (fail e)
    then show ?thesis
      using less.prems by simp
  qed
qed

lemma spa_try_Inr:
  "spa_try prov jp c i = Inr v \<Longrightarrow>
   \<exists>t. prov i c = Inr t \<and>
       jp (case t of None \<Rightarrow> ''{}'' | Some x \<Rightarrow> if x \<noteq> [] then x else ''{}'') = Inr v"
  by (auto simp: spa_try_def Let_def split: sum.splits)

lemma route_try_Inr:
  "route_try prov jp c i = Inr w \<Longrightarrow> \<exists>t. prov i c = Inr t \<and> jp t = Inr w"
  by (auto simp: route_try_def split: sum.splits)

lemma with_warning_object:
  "with_warning (JObj kvs) = JObj (AList.update ''warning'' (JStr msg_warning) kvs)"
  by (simp add: with_warning_def)


text \<open>
  Claim C5, as the code has it. Neither program inspects the parsed response. Every
  success returns what \<^verbatim>\<open>JSON.parse\<close> made of the response text of the last
  invocation of the call: that value itself after an ordinary attempt (in the browser
  service an absent or empty text is parsed as \<^verbatim>\<open>{}\<close>), and after the route's
  text-only fallback a value whose \<^verbatim>\<open>warning\<close> is the degraded-mode message, which for
  a parsed object is that object with \<^verbatim>\<open>warning\<close> set. And at every attempt a response
  text that parses to \<open>v\<close> makes the call succeed with \<open>v\<close>, whatever \<open>v\<close> is, so also
  when \<^verbatim>\<open>agents_feedback\<close> or \<^verbatim>\<open>persona_impact\<close> is missing or empty.
\<close>

theorem parsed_response_accepted:
  assumes key: "truthy apiKey" "truthy (GEMINI_API_KEY en)"
      and valid: "AnalyzeSchema body = Inr (text, img)"
  shows "(analyzeCreative apiKey provS jp input base64Image = (trS, Inr vS) \<longrightarrow>
            (\<exists>c t. trS \<noteq> [] \<and> last trS = Invoke c \<and>
                   provS (invocations trS - 1) c = Inr t \<and>
                   jp (case t of None \<Rightarrow> ''{}'' | Some x \<Rightarrow> if x \<noteq> [] then x else ''{}'')
                     = Inr vS)) \<and>
         (POST en provR jp (Inr body) =
            (trR, \<lparr>http_status = 200, http_body = ResultBody vR\<rparr>) \<longrightarrow>
            (\<exists>c t w. trR \<noteq> [] \<and> last trR = Invoke c \<and>
                     provR (invocations trR - 1) c = Inr t \<and> jp t = Inr w \<and>
                     (if truthy text \<and> truthy img \<and> c = buildParts text img False
                      then json_get vR ''warning'' = Some (JStr msg_warning) \<and>
                           (\<forall>kvs. w = JObj kvs \<longrightarrow>
                              vR = JObj (AList.update ''warning'' (JStr msg_warning) kvs))
                      else vR = w))) \<and>
         (attempt < maxRetries \<and> provS attempt contents = Inr (Some t1) \<and> t1 \<noteq> [] \<and>
          jp t1 = Inr v1 \<longrightarrow>
            analyze_loop provS jp contents attempt = ([Invoke contents], Inr v1)) \<and>
         (provR r (buildParts text img (truthy img)) = Inr t2 \<and> jp t2 = Inr v2 \<longrightarrow>
            attemptGeneration provR jp text img r =
              ([Invoke (buildParts text img (truthy img))], Inr v2))"
proof -
  have c1: "\<exists>c t. trS \<noteq> [] \<and> last trS = Invoke c \<and>
                   provS (invocations trS - 1) c = Inr t \<and>
                   jp (case t of None \<Rightarrow> ''{}'' | Some x \<Rightarrow> if x \<noteq> [] then x else ''{}'')
                     = Inr vS"
    if run: "analyzeCreative apiKey provS jp input base64Image = (trS, Inr vS)"
  proof -
    obtain c where "analyze_loop provS jp c 0 = (trS, Inr vS)"
      using run key(1) by (simp add: analyzeCreative_def Let_def)
    then have "trS \<noteq> [] \<and> last trS = Invoke c \<and>
               spa_try provS jp c (0 + invocations trS - 1) = Inr vS"
      by (rule analyze_loop_success_result)
    then show ?thesis
      using spa_try_Inr [of provS jp c "invocations trS - 1" vS] by auto
  qed
  have c2: "\<exists>c t w. trR \<noteq> [] \<and> last trR = Invoke c \<and>
                     provR (invocations trR - 1) c = Inr t \<and> jp t = Inr w \<and>
                     (if truthy text \<and> truthy img \<and> c = buildParts text img False
                      then json_get vR ''warning'' = Some (JStr msg_warning) \<and>
                           (\<forall>kvs. w = JObj kvs \<longrightarrow>
                              vR = JObj (AList.update ''warning'' (JStr msg_warning) kvs))
                      else vR = w)"
    if run: "POST en provR jp (Inr body) =
               (trR, \<lparr>http_status = 200, http_body = ResultBody vR\<rparr>)"
  proof -
    have "attemptGeneration provR jp text img 0 = (trR, Inr vR)"
    proof (cases "attemptGeneration provR jp text img 0")
      case (Pair tr res)
      then show ?thesis
        using run key(2) valid
        by (cases res) (auto simp: POST_def error_response_def Let_def)
    qed
    then obtain c w where cw: "trR \<noteq> []" "last trR = Invoke c"
        "route_try provR jp c (0 + invocations trR - 1) = Inr w"
        "if truthy text \<and> truthy img \<and> c = buildParts text img False
         then vR = with_warning w else vR = w"
      using attemptGeneration_success_result [of provR jp "text" img 0 trR vR] by blast
    obtain t where t: "provR (invocations trR - 1) c = Inr t" "jp t = Inr w"
      using route_try_Inr [of provR jp c "invocations trR - 1" w] cw(3) by auto
    have "if truthy text \<and> truthy img \<and> c = buildParts text img False
          then json_get vR ''warning'' = Some (JStr msg_warning) \<and>
               (\<forall>kvs. w = JObj kvs \<longrightarrow>
                  vR = JObj (AList.update ''warning'' (JStr msg_warning) kvs))
          else vR = w"
      using cw(4) by (auto simp: with_warning_get with_warning_object)
    then show ?thesis
      using cw(1,2) t by blast
  qed
  have c3: "analyze_loop provS jp contents attempt = ([Invoke contents], Inr v1)"
    if "attempt < maxRetries" "provS attempt contents = Inr (Some t1)" "t1 \<noteq> []" "jp t1 = Inr v1"
  proof -
    have "spa_try provS jp contents attempt = Inr v1"
      using spa_try_text [of provS attempt contents t1 jp] that by simp
    then show ?thesis
      using analyze_loop_success that(1) by blast
  qed
  have c4: "attemptGeneration provR jp text img r =
              ([Invoke (buildParts text img (truthy img))], Inr v2)"
    if "provR r (buildParts text img (truthy img)) = Inr t2" "jp t2 = Inr v2"
  proof -
    have "route_try provR jp (buildParts text img (truthy img)) r = Inr v2"
      using route_try_text [of provR r "buildParts text img (truthy img)" t2 jp] that by simp
    then show ?thesis
      by (rule attemptGeneration_success)
  qed
  show ?thesis
    using c1 c2 c3 c4 by blast
qed


text \<open>The theorem at calls that succeed on the third invocation and through the
  fallback; and the route answering 200 with the empty object, which has neither
  sequence.\<close>

theorem parsed_response_accepted_witness:
  "analyzeCreative (Some ''secret-key'') recovers_at_third_spa JSON_parse_sample ''hello'' None =
     ([Invoke [TextPart ''hello''], Sleep 2000, Invoke [TextPart ''hello''], Sleep 5000,
       Invoke [TextPart ''hello'']], Inr (JObj [])) \<and>
   (\<exists>t. recovers_at_third_spa 2 [TextPart ''hello''] = Inr t \<and>
        JSON_parse_sample (case t of None \<Rightarrow> ''{}'' | Some x \<Rightarrow> if x \<noteq> [] then x else ''{}'')
          = Inr (JObj [])) \<and>
   POST env_with_key rejects_image JSON_parse_sample (Inr body_text_image) =
     ([Invoke [TextPart ''hello'', InlineData ''image/png'' ''AAAA''], Sleep 2000,
       Invoke [TextPart ''hello'', InlineData ''image/png'' ''AAAA''],
       Invoke [TextPart ''hello'']],
      \<lparr>http_status = 200, http_body = ResultBody (JObj [(''warning'', JStr msg_warning)])\<rparr>) \<and>
   (\<exists>t w. rejects_image 2 [TextPart ''hello''] = Inr t \<and> JSON_parse_sample t = Inr w \<and>
          json_get (JObj [(''warning'', JStr msg_warning)]) ''warning'' = Some (JStr msg_warning)) \<and>
   analyze_loop recovers_at_third_spa JSON_parse_sample [TextPart ''hello''] 2 =
     ([Invoke [TextPart ''hello'']], Inr (JObj [])) \<and>
   attemptGeneration recovers_at_third JSON_parse_sample
     (Some ''hello'') (Some ''data:image/png;base64,AAAA'') 2 =
     ([Invoke [TextPart ''hello'', InlineData ''image/png'' ''AAAA'']], Inr (JObj []))"
proof -
  have k: "truthy (Some ''secret-key'')" "truthy (GEMINI_API_KEY env_with_key)"
    by (simp_all add: env_with_key_def)
  have v: "AnalyzeSchema body_text_image =
             Inr (Some ''hello'', Some ''data:image/png;base64,AAAA'')"
    by (simp add: body_text_image_def)
  have runS: "analyzeCreative (Some ''secret-key'') recovers_at_third_spa JSON_parse_sample
                ''hello'' None =
              ([Invoke [TextPart ''hello''], Sleep 2000, Invoke [TextPart ''hello''], Sleep 5000,
                Invoke [TextPart ''hello'']], Inr (JObj []))"
    by (simp add: analyzeCreative_def analyze_loop.simps spa_try_def recovers_at_third_spa_def
        error_429_def isRetryable_spa_def maxRetries_def retry_delay_spa_def
        requested_delay_def find_retryInfo_def backoffDelays_def JSON_parse_sample_def
        split_beta Let_def)
  have nr: "\<not> isRetryable_route error_400"
    by (simp add: error_400_def isRetryable_route_def isQuotaError_def js_includes_def
        sublist_code(3))
  have runR: "POST env_with_key rejects_image JSON_parse_sample (Inr body_text_image) =
     ([Invoke [TextPart ''hello'', InlineData ''image/png'' ''AAAA''], Sleep 2000,
       Invoke [TextPart ''hello'', InlineData ''image/png'' ''AAAA''],
       Invoke [TextPart ''hello'']],
      \<lparr>http_status = 200, http_body = ResultBody (JObj [(''warning'', JStr msg_warning)])\<rparr>)"
    using nr
    by (simp add: POST_def body_text_image_def env_with_key_def attemptGeneration.simps
        route_try_def rejects_image_def error_429_def isRetryable_route_def isQuotaError_def
        buildParts_def sample_image retry_delay_route_def requested_delay_def
        find_retryInfo_def JSON_parse_sample_def with_warning_def)
  have accS: "2 < maxRetries \<and>
              recovers_at_third_spa 2 [TextPart ''hello''] = Inr (Some ''{}'') \<and> ''{}'' \<noteq> [] \<and>
              JSON_parse_sample ''{}'' = Inr (JObj [])"
    by (simp add: maxRetries_def recovers_at_third_spa_def JSON_parse_sample_def)
  have accR: "recovers_at_third 2
                (buildParts (Some ''hello'') (Some ''data:image/png;base64,AAAA'')
                   (truthy (Some ''data:image/png;base64,AAAA''))) = Inr ''{}'' \<and>
              JSON_parse_sample ''{}'' = Inr (JObj [])"
    by (simp add: recovers_at_third_def JSON_parse_sample_def)
  have parts: "buildParts (Some ''hello'') (Some ''data:image/png;base64,AAAA'') True =
                 [TextPart ''hello'', InlineData ''image/png'' ''AAAA'']"
              "buildParts (Some ''hello'') (Some ''data:image/png;base64,AAAA'') False =
                 [TextPart ''hello'']"
    by (simp_all add: buildParts_def sample_image)
  note thm1 = parsed_response_accepted
            [where apiKey = "Some ''secret-key''" and en = env_with_key and body = body_text_image
               and provS = recovers_at_third_spa and provR = rejects_image
               and jp = JSON_parse_sample and input = "''hello''" and base64Image = None
               and attempt = 2 and contents = "[TextPart ''hello'']" and ?t1.0 = "''{}''"
               and ?v1.0 = "JObj []" and vS = "JObj []"
               and trS = "[Invoke [TextPart ''hello''], Sleep 2000, Invoke [TextPart ''hello''],
                          Sleep 5000, Invoke [TextPart ''hello'']]"
               and trR = "[Invoke [TextPart ''hello'', InlineData ''image/png'' ''AAAA''], Sleep 2000,
                          Invoke [TextPart ''hello'', InlineData ''image/png'' ''AAAA''],
                          Invoke [TextPart ''hello'']]"
               and vR = "JObj [(''warning'', JStr msg_warning)]",
             OF k v]
  note thm2 = parsed_response_accepted
            [where apiKey = "Some ''secret-key''" and en = env_with_key and body = body_text_image
               and provR = recovers_at_third and jp = JSON_parse_sample
               and r = 2 and ?t2.0 = "''{}''" and ?v2.0 = "JObj []",
             OF k v]
  have w1: "\<exists>t. recovers_at_third_spa 2 [TextPart ''hello''] = Inr t \<and>
        JSON_parse_sample (case t of None \<Rightarrow> ''{}'' | Some x \<Rightarrow> if x \<noteq> [] then x else ''{}'')
          = Inr (JObj [])"
    using thm1 runS by (simp add: invocations_def numeral_2_eq_2)
  have w2: "\<exists>t w. rejects_image 2 [TextPart ''hello''] = Inr t \<and> JSON_parse_sample t = Inr w \<and>
          json_get (JObj [(''warning'', JStr msg_warning)]) ''warning'' = Some (JStr msg_warning)"
    using thm1 runR by (simp add: invocations_def numeral_2_eq_2 parts) blast
  have w3: "analyze_loop recovers_at_third_spa JSON_parse_sample [TextPart ''hello''] 2 =
     ([Invoke [TextPart ''hello'']], Inr (JObj []))"
    using thm1 accS by blast
  have w4: "attemptGeneration recovers_at_third JSON_parse_sample
     (Some ''hello'') (Some ''data:image/png;base64,AAAA'') 2 =
     ([Invoke [TextPart ''hello'', InlineData ''image/png'' ''AAAA'']], Inr (JObj []))"
    using thm2 accR by (simp add: parts)
  show ?thesis
    using runS runR w1 w2 w3 w4 by blast
qed

theorem parsed_response_counterexample:
  "POST env_with_key answers_empty_object JSON_parse_sample (Inr body_text) =
     ([Invoke [TextPart ''hello'']], \<lparr>http_status = 200, http_body = ResultBody (JObj [])\<rparr>) \<and>
   json_get (JObj []) ''agents_feedback'' = None \<and>
   json_get (JObj []) ''persona_impact'' = None"
  by (simp add: POST_def body_text_def env_with_key_def attemptGeneration.simps route_try_def
      answers_empty_object_def JSON_parse_sample_def buildParts_def)

end
